theory Spec2Isabelle
  imports Main "HOL-Library.AList" "HOL-Library.Multiset"
begin

section \<open>Python values used by the scheduler\<close>

text \<open>
  The scheduler (\<^verbatim>\<open>src/apps/schedule_app.py\<close>, class \<^verbatim>\<open>Schedule_Algorithm\<close>) works on
  tables read from CSV files: a table is a list of rows, a row a list of cells, a cell an
  ASCII string. Every Python exception the methods can raise is a value of \<open>error\<close>;
  a computation that may raise has type \<open>error + 'a\<close>, with \<open>Inl\<close> for the exception.
\<close>

datatype error = IndexError | ValueError | KeyError | TypeError | OverflowError

type_synonym row = "string list"

text \<open>\<^verbatim>\<open>xs[i]\<close> for a literal index \<open>i \<ge> 0\<close>: IndexError out of range.\<close>

definition py_index :: "'a list \<Rightarrow> nat \<Rightarrow> error + 'a" where
  "py_index xs i = (if i < length xs then Inr (xs ! i) else Inl IndexError)"

text \<open>\<^verbatim>\<open>xs.index(v)\<close>: the first position of \<open>v\<close>, ValueError when absent.\<close>

fun list_index :: "'a list \<Rightarrow> 'a \<Rightarrow> error + nat" where
  "list_index [] v = Inl ValueError"
| "list_index (x # xs) v =
     (if x = v then Inr 0
      else (case list_index xs v of Inl e \<Rightarrow> Inl e | Inr i \<Rightarrow> Inr (Suc i)))"

text \<open>\<^verbatim>\<open>min(xs)\<close> on a list of integers: ValueError on the empty list.\<close>

fun py_min :: "int list \<Rightarrow> error + int" where
  "py_min [] = Inl ValueError"
| "py_min (x # xs) = Inr (fold min xs x)"

text \<open>
  A Python \<^verbatim>\<open>dict\<close> is an association list in insertion order with distinct keys:
  \<^verbatim>\<open>d[k]\<close> is \<open>dict_get\<close> (KeyError on a missing key), \<^verbatim>\<open>d[k] = v\<close> is
  \<^const>\<open>AList.update\<close>, which overwrites in place or appends a new key at the end.
\<close>

definition dict_get :: "('k \<times> 'v) list \<Rightarrow> 'k \<Rightarrow> error + 'v" where
  "dict_get d k = (case map_of d k of None \<Rightarrow> Inl KeyError | Some v \<Rightarrow> Inr v)"

subsection \<open>Decimal digits, \<^verbatim>\<open>int(str)\<close> and \<^verbatim>\<open>%0wd\<close>\<close>

definition is_digit :: "char \<Rightarrow> bool" where
  "is_digit c = (48 \<le> (of_char c :: nat) \<and> (of_char c :: nat) \<le> 57)"

definition digit_val :: "char \<Rightarrow> nat" where
  "digit_val c = of_char c - 48"

definition digit_char :: "nat \<Rightarrow> char" where
  "digit_char d = char_of (48 + d)"

text \<open>The whitespace \<^verbatim>\<open>int()\<close> strips: space, tab, newline, vertical tab, form feed, return.\<close>

definition is_space :: "char \<Rightarrow> bool" where
  "is_space c = ((of_char c :: nat) = 32 \<or> (9 \<le> (of_char c :: nat) \<and> (of_char c :: nat) \<le> 13))"

definition strip :: "string \<Rightarrow> string" where
  "strip s = rev (dropWhile is_space (rev (dropWhile is_space s)))"

text \<open>
  The digits of a decimal literal after its first digit, \<open>acc\<close> the value read so far:
  a single underscore may stand between two digits.
\<close>

fun int_digits :: "string \<Rightarrow> nat \<Rightarrow> nat option" where
  "int_digits [] acc = Some acc"
| "int_digits [c] acc = (if is_digit c then Some (10 * acc + digit_val c) else None)"
| "int_digits (c # d # cs) acc =
     (if is_digit c then int_digits (d # cs) (10 * acc + digit_val c)
      else if c = CHR ''_'' \<and> is_digit d then int_digits cs (10 * acc + digit_val d)
      else None)"

definition int_literal :: "string \<Rightarrow> nat option" where
  "int_literal s =
     (case s of [] \<Rightarrow> None
      | c # cs \<Rightarrow> if is_digit c then int_digits cs (digit_val c) else None)"

text \<open>
  \<^verbatim>\<open>int(s)\<close> for an ASCII string: ValueError unless \<open>s\<close>, stripped of surrounding
  whitespace, is an optional sign and a decimal literal. (The limit that recent CPython
  versions put on the number of digits, 4300 by default, is not modelled.)
\<close>

definition py_int :: "string \<Rightarrow> error + int" where
  "py_int s =
     (case strip s of
        [] \<Rightarrow> Inl ValueError
      | c # cs \<Rightarrow>
          if c = CHR ''-'' then
            (case int_literal cs of None \<Rightarrow> Inl ValueError | Some n \<Rightarrow> Inr (- int n))
          else if c = CHR ''+'' then
            (case int_literal cs of None \<Rightarrow> Inl ValueError | Some n \<Rightarrow> Inr (int n))
          else
            (case int_literal (c # cs) of None \<Rightarrow> Inl ValueError | Some n \<Rightarrow> Inr (int n)))"

text \<open>\<^verbatim>\<open>str(n)\<close> for \<open>n \<ge> 0\<close>, and \<^verbatim>\<open>"%0wd" % n\<close>: zero-padded to at least \<open>w\<close> characters.\<close>

fun str_nat :: "nat \<Rightarrow> string" where
  "str_nat n = (if n < 10 then [digit_char n] else str_nat (n div 10) @ [digit_char (n mod 10)])"

declare str_nat.simps [simp del]

definition fmt_0d :: "nat \<Rightarrow> nat \<Rightarrow> string" where
  "fmt_0d w n = replicate (w - length (str_nat n)) (CHR ''0'') @ str_nat n"

section \<open>The frequency expander\<close>

text \<open>
  \<^verbatim>\<open>calculateFrequencyMinutes\<close>, lines 222-243. The \<^verbatim>\<open>while\<close> loop is a partial function:
  \<open>None\<close> is a loop that never ends. The method's own result is Python's \<^verbatim>\<open>None\<close>
  (the inner \<open>None\<close>) or the list of minutes.
\<close>

partial_function (option) calculateFrequencyMinutes_loop ::
  "int \<Rightarrow> int \<Rightarrow> int list \<Rightarrow> int list option" where
  "calculateFrequencyMinutes_loop frequency current_min minutes =
     (if current_min < 60
      then calculateFrequencyMinutes_loop frequency (current_min + frequency) (minutes @ [current_min])
      else Some minutes)"

declare calculateFrequencyMinutes_loop.simps [code]

definition calculateFrequencyMinutes :: "int \<Rightarrow> int \<Rightarrow> int list option option" where
  "calculateFrequencyMinutes frequency shift_min =
     (if frequency > 60 \<or> frequency < 1 then Some None
      else map_option Some (calculateFrequencyMinutes_loop frequency shift_min []))"

section \<open>The scheduler's state\<close>

text \<open>
  A \<^verbatim>\<open>Node\<close> of \<^verbatim>\<open>src/apps/node.py\<close>: its id, its name and its \<^verbatim>\<open>(route, stop)\<close>
  memberships. Its \<^verbatim>\<open>connections\<close> are never read by the scheduler and are left out.
\<close>

record node =
  node_id :: string
  node_name :: string
  node_stops :: "(string \<times> string) list"

type_synonym trip = "(string \<times> string) list"
type_synonym route_schedule = "(string \<times> trip) list"

text \<open>
  The attributes of a \<^verbatim>\<open>Schedule_Algorithm\<close> that its methods read or write.
  \<open>routes_stops\<close> maps a route id to its list of \<^verbatim>\<open>[stop_id, travel_time]\<close> pairs,
  \<open>routes_schedules\<close> maps a route id to a dict from trip id to trip, a trip being a dict
  from stop id to a time string. Both are class attributes, so a method may find them
  filled by earlier calls. The dicts of different routes and trips are separate objects
  (\<^verbatim>\<open>arrangeRoutes\<close> and \<^verbatim>\<open>generateTrip\<close> create each one fresh), so they are values
  here. \<open>stdout\<close> collects the lines the methods print. The attribute \<^verbatim>\<open>buses\<close> is
  never read, and \<^verbatim>\<open>routes_schedules_finalized\<close> is written only by
  \<^verbatim>\<open>generateSchedules\<close>; both are left out.
  A method has type \<open>state \<Rightarrow> (error + result) \<times> state\<close>: the state it returns
  is the object as the method leaves it, also when it raises.
\<close>

record schedule_algorithm =
  routes :: "row list"
  nodes :: "node list"
  frequency :: "row list"
  priority :: "row list"
  routes_stops :: "(string \<times> (string \<times> string) list) list"
  routes_schedules :: "(string \<times> route_schedule) list"
  routes_order :: "string list"
  stdout :: "string list"

definition START_DAY_HOUR :: nat where
  "START_DAY_HOUR = 3"

section \<open>The route priority orderer\<close>

text \<open>
  \<^verbatim>\<open>arrangeRoutes\<close>, lines 34-55. The list comprehension of lines 43-44 for one route id:
  the rows of the route table whose cell 0 is the route id and whose cell 4 (the stop id)
  is not the empty string, each projected to its cells 4 and 5.
\<close>

fun arrangeRoutes_stops :: "row list \<Rightarrow> string \<Rightarrow> error + (string \<times> string) list" where
  "arrangeRoutes_stops [] route = Inr []"
| "arrangeRoutes_stops (route_point # rest) route =
     (case py_index route_point 0 of Inl e \<Rightarrow> Inl e
      | Inr c0 \<Rightarrow>
          if c0 = route then
            (case py_index route_point 4 of Inl e \<Rightarrow> Inl e
             | Inr c4 \<Rightarrow>
                 if c4 \<noteq> [] then
                   (case py_index route_point 5 of Inl e \<Rightarrow> Inl e
                    | Inr c5 \<Rightarrow>
                        (case arrangeRoutes_stops rest route of Inl e \<Rightarrow> Inl e
                         | Inr stops \<Rightarrow> Inr ((c4, c5) # stops)))
                 else arrangeRoutes_stops rest route)
          else arrangeRoutes_stops rest route)"

text \<open>The loop of lines 41-46 over the priority rows.\<close>

fun arrangeRoutes_register ::
  "row list \<Rightarrow> schedule_algorithm \<Rightarrow> (error + unit) \<times> schedule_algorithm" where
  "arrangeRoutes_register [] s = (Inr (), s)"
| "arrangeRoutes_register (p # ps) s =
     (case py_index p 0 of Inl e \<Rightarrow> (Inl e, s)
      | Inr route \<Rightarrow>
          (case arrangeRoutes_stops (routes s) route of Inl e \<Rightarrow> (Inl e, s)
           | Inr stops \<Rightarrow>
               arrangeRoutes_register ps
                 (s\<lparr>routes_stops := AList.update route stops (routes_stops s),
                    routes_schedules := AList.update route [] (routes_schedules s)\<rparr>)))"

text \<open>Line 51: \<^verbatim>\<open>[int(priority[1]) for priority in priority_routes]\<close>.\<close>

fun priority_ranks :: "row list \<Rightarrow> error + int list" where
  "priority_ranks [] = Inr []"
| "priority_ranks (p # ps) =
     (case py_index p 1 of Inl e \<Rightarrow> Inl e
      | Inr c \<Rightarrow>
          (case py_int c of Inl e \<Rightarrow> Inl e
           | Inr r \<Rightarrow>
               (case priority_ranks ps of Inl e \<Rightarrow> Inl e | Inr rs \<Rightarrow> Inr (r # rs))))"

text \<open>
  The selection loop of lines 52-55, \<open>n\<close> the iterations left: take the first position of
  the minimum, append that row's route id, overwrite the rank with 20.
\<close>

fun arrangeRoutes_select ::
  "nat \<Rightarrow> int list \<Rightarrow> schedule_algorithm \<Rightarrow> (error + unit) \<times> schedule_algorithm" where
  "arrangeRoutes_select 0 priority_routes_loop s = (Inr (), s)"
| "arrangeRoutes_select (Suc n) priority_routes_loop s =
     (case py_min priority_routes_loop of Inl e \<Rightarrow> (Inl e, s)
      | Inr m \<Rightarrow>
          (case list_index priority_routes_loop m of Inl e \<Rightarrow> (Inl e, s)
           | Inr priority_min_index \<Rightarrow>
               (case py_index (priority s) priority_min_index of Inl e \<Rightarrow> (Inl e, s)
                | Inr p \<Rightarrow>
                    (case py_index p 0 of Inl e \<Rightarrow> (Inl e, s)
                     | Inr route \<Rightarrow>
                         arrangeRoutes_select n
                           (priority_routes_loop[priority_min_index := 20])
                           (s\<lparr>routes_order := routes_order s @ [route]\<rparr>)))))"

definition arrangeRoutes :: "schedule_algorithm \<Rightarrow> (error + unit) \<times> schedule_algorithm" where
  "arrangeRoutes s =
     (case priority s of
        [] \<Rightarrow> (Inl IndexError, s)
      | header # rows \<Rightarrow>
          (case arrangeRoutes_register rows (s\<lparr>priority := rows\<rparr>) of
             (Inl e, s1) \<Rightarrow> (Inl e, s1)
           | (Inr u, s1) \<Rightarrow>
               (let s2 = s1\<lparr>routes_order := []\<rparr> in
                case priority_ranks (priority s2) of
                  Inl e \<Rightarrow> (Inl e, s2)
                | Inr priority_routes_loop \<Rightarrow>
                    arrangeRoutes_select (length (priority s2)) priority_routes_loop s2)))"

text \<open>
  \<^verbatim>\<open>getOrderedRoutes\<close>, lines 263-290. The inner \<^verbatim>\<open>for\<close> loop of lines 280-282 scans the
  priority rows for one rank; the \<^verbatim>\<open>while True\<close> loop is a partial function, \<open>None\<close>
  being a loop that never reaches its \<^verbatim>\<open>break\<close>.
\<close>

fun getOrderedRoutes_scan ::
  "row list \<Rightarrow> int \<Rightarrow> (int \<times> string list) list \<Rightarrow> error + (int \<times> string list) list" where
  "getOrderedRoutes_scan [] priority_num single_priority = Inr single_priority"
| "getOrderedRoutes_scan (p # ps) priority_num single_priority =
     (case py_index p 1 of Inl e \<Rightarrow> Inl e
      | Inr c \<Rightarrow>
          (case py_int c of Inl e \<Rightarrow> Inl e
           | Inr r \<Rightarrow>
               if r = priority_num then
                 (case py_index p 0 of Inl e \<Rightarrow> Inl e
                  | Inr route \<Rightarrow>
                      (case dict_get single_priority priority_num of Inl e \<Rightarrow> Inl e
                       | Inr bucket \<Rightarrow>
                           if route \<notin> set bucket
                           then getOrderedRoutes_scan ps priority_num
                                  (AList.update priority_num (bucket @ [route]) single_priority)
                           else getOrderedRoutes_scan ps priority_num single_priority))
               else getOrderedRoutes_scan ps priority_num single_priority))"

partial_function (option) getOrderedRoutes_loop ::
  "row list \<Rightarrow> int \<Rightarrow> (int \<times> string list) list \<Rightarrow> (error + (int \<times> string list) list) option" where
  "getOrderedRoutes_loop priority_routes priority_num single_priority =
     (case getOrderedRoutes_scan priority_routes priority_num
             (AList.update priority_num [] single_priority) of
        Inl e \<Rightarrow> Some (Inl e)
      | Inr single_priority' \<Rightarrow>
          if priority_num + 1 = 20 then Some (Inr single_priority')
          else getOrderedRoutes_loop priority_routes (priority_num + 1) single_priority')"

declare getOrderedRoutes_loop.simps [code]

definition getOrderedRoutes :: "row list \<Rightarrow> (error + (int \<times> string list) list) option" where
  "getOrderedRoutes priority_routes = getOrderedRoutes_loop priority_routes 1 []"

section \<open>Dates and times\<close>

text \<open>
  The scheduler builds \<^verbatim>\<open>datetime\<close> values on two fixed days, adds \<^verbatim>\<open>timedelta\<close>s of whole
  seconds and reads the time of day back. A \<^verbatim>\<open>datetime\<close> is modelled as its number of
  seconds since 0001-01-01 00:00:00, the first instant Python represents; the last one is
  9999-12-31 23:59:59, the end of day number 3652059. 2000-01-01 is day number 730120 and
  1900-01-01 is day number 693596.
\<close>

type_synonym datetime = int

text \<open>\<^verbatim>\<open>datetime(2000, 1, 1, hour, minute, 0)\<close>: ValueError for an hour or minute out of range.\<close>

definition datetime_2000_01_01 :: "int \<Rightarrow> int \<Rightarrow> error + datetime" where
  "datetime_2000_01_01 hour minute =
     (if 0 \<le> hour \<and> hour \<le> 23 \<and> 0 \<le> minute \<and> minute \<le> 59
      then Inr (730119 * 86400 + hour * 3600 + minute * 60)
      else Inl ValueError)"

text \<open>\<^verbatim>\<open>timedelta(seconds=n)\<close>: OverflowError beyond 999999999 days either way.\<close>

definition timedelta_seconds :: "int \<Rightarrow> error + int" where
  "timedelta_seconds n =
     (if - 999999999 \<le> n div 86400 \<and> n div 86400 \<le> 999999999 then Inr n
      else Inl OverflowError)"

text \<open>\<^verbatim>\<open>datetime + timedelta\<close>: OverflowError outside the years 1 to 9999.\<close>

definition datetime_add :: "datetime \<Rightarrow> int \<Rightarrow> error + datetime" where
  "datetime_add t d =
     (if 0 \<le> t + d \<and> t + d < 3652059 * 86400 then Inr (t + d) else Inl OverflowError)"

text \<open>\<^verbatim>\<open>t.time()\<close> as the second of the day, \<^verbatim>\<open>t.hour\<close>, and \<^verbatim>\<open>str\<close> of a time: \<^verbatim>\<open>HH:MM:SS\<close>.\<close>

definition time_of :: "datetime \<Rightarrow> nat" where
  "time_of t = nat (t mod 86400)"

definition hour_of :: "datetime \<Rightarrow> nat" where
  "hour_of t = time_of t div 3600"

definition str_time :: "nat \<Rightarrow> string" where
  "str_time t =
     fmt_0d 2 (t div 3600) @ '':'' @ fmt_0d 2 (t div 60 mod 60) @ '':'' @ fmt_0d 2 (t mod 60)"

text \<open>
  \<^verbatim>\<open>datetime.strptime(s, "%H:%M:%S")\<close>: three fields of one or two digits between colons,
  the hour below 24, minute and second below 60, on 1900-01-01; ValueError otherwise.
\<close>

fun split_at :: "char \<Rightarrow> string \<Rightarrow> string list" where
  "split_at sep [] = [[]]"
| "split_at sep (c # cs) =
     (if c = sep then [] # split_at sep cs
      else (case split_at sep cs of [] \<Rightarrow> [[c]] | f # fs \<Rightarrow> (c # f) # fs))"

fun time_field :: "string \<Rightarrow> nat \<Rightarrow> nat option" where
  "time_field [a] bound = (if is_digit a then Some (digit_val a) else None)"
| "time_field [a, b] bound =
     (if is_digit a \<and> is_digit b \<and> 10 * digit_val a + digit_val b < bound
      then Some (10 * digit_val a + digit_val b) else None)"
| "time_field field bound = None"

definition strptime_HMS :: "string \<Rightarrow> error + datetime" where
  "strptime_HMS s =
     (case split_at (CHR '':'') s of
        [h, m, sec] \<Rightarrow>
          (case time_field h 24 of None \<Rightarrow> Inl ValueError
           | Some hour \<Rightarrow>
               (case time_field m 60 of None \<Rightarrow> Inl ValueError
                | Some minute \<Rightarrow>
                    (case time_field sec 60 of None \<Rightarrow> Inl ValueError
                     | Some second \<Rightarrow>
                         Inr (693595 * 86400 + int (hour * 3600 + minute * 60 + second)))))
      | _ \<Rightarrow> Inl ValueError)"

section \<open>The trip generator\<close>

text \<open>
  \<^verbatim>\<open>generateTrip\<close>, lines 168-186. The loop of lines 184-186 over the route's stops adds
  each stop's travel time to the running \<open>trip_time\<close> and stores the time of day under the
  stop id, in the trip \<open>trip_id\<close> of the route's schedule.
\<close>

fun generateTrip_stops ::
  "(string \<times> string) list \<Rightarrow> string \<Rightarrow> string \<Rightarrow> datetime \<Rightarrow> schedule_algorithm \<Rightarrow>
     (error + unit) \<times> schedule_algorithm" where
  "generateTrip_stops [] current_route trip_id trip_time s = (Inr (), s)"
| "generateTrip_stops (route_stop # rest) current_route trip_id trip_time s =
     (case py_int (snd route_stop) of Inl e \<Rightarrow> (Inl e, s)
      | Inr seconds \<Rightarrow>
          (case timedelta_seconds seconds of Inl e \<Rightarrow> (Inl e, s)
           | Inr delta \<Rightarrow>
               (case datetime_add trip_time delta of Inl e \<Rightarrow> (Inl e, s)
                | Inr trip_time' \<Rightarrow>
                    (case dict_get (routes_schedules s) current_route of Inl e \<Rightarrow> (Inl e, s)
                     | Inr schedule \<Rightarrow>
                         (case dict_get schedule trip_id of Inl e \<Rightarrow> (Inl e, s)
                          | Inr trip \<Rightarrow>
                              generateTrip_stops rest current_route trip_id trip_time'
                                (s\<lparr>routes_schedules :=
                                     AList.update current_route
                                       (AList.update trip_id
                                          (AList.update (fst route_stop)
                                             (str_time (time_of trip_time')) trip)
                                          schedule)
                                       (routes_schedules s)\<rparr>))))))"

definition generateTrip ::
  "string \<Rightarrow> string \<Rightarrow> int \<Rightarrow> int \<Rightarrow> schedule_algorithm \<Rightarrow>
     (error + unit) \<times> schedule_algorithm" where
  "generateTrip current_route trip_id current_hour trip_minute s =
     (case dict_get (routes_schedules s) current_route of Inl e \<Rightarrow> (Inl e, s)
      | Inr schedule \<Rightarrow>
          (let s1 = s\<lparr>routes_schedules :=
                        AList.update current_route (AList.update trip_id [] schedule)
                          (routes_schedules s)\<rparr>
           in case datetime_2000_01_01 current_hour trip_minute of Inl e \<Rightarrow> (Inl e, s1)
              | Inr trip_time \<Rightarrow>
                  (case dict_get (routes_stops s1) current_route of Inl e \<Rightarrow> (Inl e, s1)
                   | Inr stops \<Rightarrow>
                       generateTrip_stops stops current_route trip_id trip_time s1)))"

text \<open>
  \<^verbatim>\<open>generateRouteSchedule\<close>, lines 124-166. \<open>first_cells\<close> is the comprehension
  \<^verbatim>\<open>[route[0] for route in self.frequency]\<close>, \<open>py_slice\<close> the slice \<^verbatim>\<open>xs[a:b]\<close> for
  indices that are not negative.
\<close>

fun first_cells :: "row list \<Rightarrow> error + string list" where
  "first_cells [] = Inr []"
| "first_cells (r # rs) =
     (case py_index r 0 of Inl e \<Rightarrow> Inl e
      | Inr c \<Rightarrow> (case first_cells rs of Inl e \<Rightarrow> Inl e | Inr cs \<Rightarrow> Inr (c # cs)))"

definition py_slice :: "'a list \<Rightarrow> nat \<Rightarrow> nat \<Rightarrow> 'a list" where
  "py_slice xs a b = drop a (take b xs)"

text \<open>
  The loop of lines 156-161 over the minutes of one hour: it returns the trip counter.
\<close>

fun generateRouteSchedule_trips ::
  "int list \<Rightarrow> string \<Rightarrow> int \<Rightarrow> nat \<Rightarrow> schedule_algorithm \<Rightarrow>
     (error + nat) \<times> schedule_algorithm" where
  "generateRouteSchedule_trips [] current_route current_hour trip_id_num s = (Inr trip_id_num, s)"
| "generateRouteSchedule_trips (trip_minute # rest) current_route current_hour trip_id_num s =
     (case generateTrip current_route (current_route @ fmt_0d 4 (trip_id_num + 1))
             current_hour trip_minute s of
        (Inl e, s') \<Rightarrow> (Inl e, s')
      | (Inr u, s') \<Rightarrow>
          generateRouteSchedule_trips rest current_route current_hour (trip_id_num + 1) s')"

text \<open>
  The loop of lines 148-166 over the hours' frequencies; \<open>count_hours\<close> is the source's
  \<^verbatim>\<open>count\<close>. \<open>None\<close> stands for a call of \<^verbatim>\<open>calculateFrequencyMinutes\<close> that does not
  return.
\<close>

fun generateRouteSchedule_hours ::
  "string list \<Rightarrow> string \<Rightarrow> int \<Rightarrow> int \<Rightarrow> nat \<Rightarrow> schedule_algorithm \<Rightarrow>
     ((error + unit) \<times> schedule_algorithm) option" where
  "generateRouteSchedule_hours [] current_route current_hour count_hours trip_id_num s =
     Some (Inr (), s)"
| "generateRouteSchedule_hours (current_hour_freq # rest) current_route current_hour count_hours
     trip_id_num s =
     (let hour = (if current_hour = 24 then 0 else current_hour) in
      case py_int current_hour_freq of Inl e \<Rightarrow> Some (Inl e, s)
      | Inr freq \<Rightarrow>
          (case calculateFrequencyMinutes freq 0 of
             None \<Rightarrow> None
           | Some None \<Rightarrow>
               generateRouteSchedule_hours rest current_route (hour + 1) (count_hours + 1)
                 trip_id_num s
           | Some (Some freq_minutes) \<Rightarrow>
               (case generateRouteSchedule_trips freq_minutes current_route hour trip_id_num s of
                  (Inl e, s') \<Rightarrow> Some (Inl e, s')
                | (Inr trip_id_num', s') \<Rightarrow>
                    if count_hours = 23 then Some (Inr (), s')
                    else generateRouteSchedule_hours rest current_route (hour + 1) (count_hours + 1)
                           trip_id_num' s')))"

definition generateRouteSchedule ::
  "string \<Rightarrow> string \<Rightarrow> schedule_algorithm \<Rightarrow> ((error + unit) \<times> schedule_algorithm) option" where
  "generateRouteSchedule route period s =
     (case first_cells (frequency s) of Inl e \<Rightarrow> Some (Inl e, s)
      | Inr ids \<Rightarrow>
          (case list_index ids route of Inl e \<Rightarrow> Some (Inl e, s)
           | Inr i \<Rightarrow>
               (case py_index (frequency s) i of Inl e \<Rightarrow> Some (Inl e, s)
                | Inr current_route_frequency \<Rightarrow>
                    (case py_index (frequency s) 0 of Inl e \<Rightarrow> Some (Inl e, s)
                     | Inr header \<Rightarrow>
                         (case list_index header (period @ ''00'') of Inl e \<Rightarrow> Some (Inl e, s)
                          | Inr header_start_index \<Rightarrow>
                              (case list_index header (period @ ''23'') of
                                 Inl e \<Rightarrow> Some (Inl e, s)
                               | Inr header_fin_index \<Rightarrow>
                                   (let period_frequency =
                                          py_slice current_route_frequency header_start_index
                                            (header_fin_index + 1);
                                        rotated = drop START_DAY_HOUR period_frequency @
                                                  take START_DAY_HOUR period_frequency
                                    in generateRouteSchedule_hours rotated route
                                         (int START_DAY_HOUR) 0 0 s)))))))"

section \<open>The time arithmetic utility\<close>

text \<open>
  \<^verbatim>\<open>shiftTripTime\<close>, lines 203-220, with \<open>seconds\<close> an integer. The loop runs over the
  trip's stop ids and rewrites each time in place; the method returns the trip it was
  given. The second component of the result is the caller's trip as the call leaves it,
  also when the call raises part way.
\<close>

fun shiftTripTime_stops :: "string list \<Rightarrow> int \<Rightarrow> trip \<Rightarrow> (error + unit) \<times> trip" where
  "shiftTripTime_stops [] seconds trip = (Inr (), trip)"
| "shiftTripTime_stops (stop # rest) seconds trip =
     (case dict_get trip stop of Inl e \<Rightarrow> (Inl e, trip)
      | Inr stop_time \<Rightarrow>
          (case strptime_HMS stop_time of Inl e \<Rightarrow> (Inl e, trip)
           | Inr timeStart \<Rightarrow>
               (case timedelta_seconds seconds of Inl e \<Rightarrow> (Inl e, trip)
                | Inr delta \<Rightarrow>
                    (case datetime_add timeStart delta of Inl e \<Rightarrow> (Inl e, trip)
                     | Inr timeFinish \<Rightarrow>
                         shiftTripTime_stops rest seconds
                           (AList.update stop (str_time (time_of timeFinish)) trip)))))"

definition shiftTripTime :: "trip \<Rightarrow> int \<Rightarrow> (error + trip) \<times> trip" where
  "shiftTripTime trip seconds =
     (case shiftTripTime_stops (map fst trip) seconds trip of
        (Inl e, trip') \<Rightarrow> (Inl e, trip')
      | (Inr u, trip') \<Rightarrow> (Inr trip', trip'))"

section \<open>The wait-time optimizer\<close>

text \<open>\<^verbatim>\<open>print(line)\<close> appends a line to the output; \<open>str_int\<close> is \<^verbatim>\<open>str\<close> of an integer.\<close>

definition print_line :: "string \<Rightarrow> schedule_algorithm \<Rightarrow> schedule_algorithm" where
  "print_line line s = s\<lparr>stdout := stdout s @ [line]\<rparr>"

definition str_int :: "int \<Rightarrow> string" where
  "str_int i = (if i < 0 then ''-'' @ str_nat (nat (- i)) else str_nat (nat i))"

text \<open>
  \<^verbatim>\<open>calculateNodeNumber\<close>, lines 245-261: for every route, the number of pairs of one of
  its stops and a node that lists the stop id.
\<close>

definition calculateNodeNumber :: "schedule_algorithm \<Rightarrow> (string \<times> int) list" where
  "calculateNodeNumber s =
     fold (\<lambda>(route, stops) route_node_numbers.
             AList.update route
               (int (length (concat (map (\<lambda>stop.
                  filter (\<lambda>node. fst stop \<in> set (map snd (node_stops node))) (nodes s)) stops))))
               route_node_numbers)
       (routes_stops s) []"

text \<open>
  \<^verbatim>\<open>evaluateNodeConnections\<close>, lines 71-84. The nodes are \<^verbatim>\<open>Node\<close> objects of
  \<^verbatim>\<open>src/apps/node.py\<close>, whose \<^verbatim>\<open>evaluateConnectionTime(self, trips)\<close> has no parameter
  \<^verbatim>\<open>route\<close>: the call of line 81 with the keyword \<^verbatim>\<open>route=route\<close> raises TypeError before
  the method's body runs. With no node the loop is empty and the sum is 0.
\<close>

definition evaluateNodeConnections ::
  "string \<Rightarrow> schedule_algorithm \<Rightarrow> (error + int) \<times> schedule_algorithm" where
  "evaluateNodeConnections route s =
     (case nodes s of [] \<Rightarrow> (Inr 0, s) | node # rest \<Rightarrow> (Inl TypeError, s))"

text \<open>
  \<^verbatim>\<open>minimizeRouteWaitTime\<close>, lines 104-121: for each of 24 hours, for each trip of the
  route, parse the time of the trip's first stop and print its hour.
\<close>

fun minimizeRouteWaitTime_trips ::
  "string list \<Rightarrow> string \<Rightarrow> schedule_algorithm \<Rightarrow> (error + unit) \<times> schedule_algorithm" where
  "minimizeRouteWaitTime_trips [] route s = (Inr (), s)"
| "minimizeRouteWaitTime_trips (trip # rest) route s =
     (case dict_get (routes_schedules s) route of Inl e \<Rightarrow> (Inl e, s)
      | Inr schedule \<Rightarrow>
          (case dict_get schedule trip of Inl e \<Rightarrow> (Inl e, s)
           | Inr stop_times \<Rightarrow>
               (case py_index (map snd stop_times) 0 of Inl e \<Rightarrow> (Inl e, s)
                | Inr first_time \<Rightarrow>
                    (case strptime_HMS first_time of Inl e \<Rightarrow> (Inl e, s)
                     | Inr trip_start_time \<Rightarrow>
                         minimizeRouteWaitTime_trips rest route
                           (print_line (str_nat (hour_of trip_start_time)) s)))))"

fun minimizeRouteWaitTime_hours ::
  "nat \<Rightarrow> int \<Rightarrow> string \<Rightarrow> schedule_algorithm \<Rightarrow> (error + unit) \<times> schedule_algorithm" where
  "minimizeRouteWaitTime_hours 0 current_hour route s = (Inr (), s)"
| "minimizeRouteWaitTime_hours (Suc i) current_hour route s =
     (let hour = (if current_hour = 24 then 0 else current_hour) in
      case dict_get (routes_schedules s) route of Inl e \<Rightarrow> (Inl e, s)
      | Inr schedule \<Rightarrow>
          (case minimizeRouteWaitTime_trips (map fst schedule) route s of
             (Inl e, s') \<Rightarrow> (Inl e, s')
           | (Inr u, s') \<Rightarrow> minimizeRouteWaitTime_hours i (hour + 1) route s'))"

definition minimizeRouteWaitTime ::
  "string \<Rightarrow> schedule_algorithm \<Rightarrow> (error + unit) \<times> schedule_algorithm" where
  "minimizeRouteWaitTime route s = minimizeRouteWaitTime_hours 24 (int START_DAY_HOUR) route s"

text \<open>
  \<^verbatim>\<open>shiftHourlyTripTimes\<close>, lines 188-201: the body is the docstring alone, so the method
  returns \<^verbatim>\<open>None\<close> and does nothing. No method calls it.
\<close>

definition shiftHourlyTripTimes ::
  "(string \<times> route_schedule) list \<Rightarrow> string \<Rightarrow> int \<Rightarrow> int \<Rightarrow> schedule_algorithm \<Rightarrow>
     (error + unit) \<times> schedule_algorithm" where
  "shiftHourlyTripTimes trips route hour seconds s = (Inr (), s)"

text \<open>
  \<^verbatim>\<open>optimizeNodeConnections\<close>, lines 86-102: the buckets in key order, the routes of each
  bucket in order. \<open>None\<close> stands for a call of \<^verbatim>\<open>getOrderedRoutes\<close> that does not return.
\<close>

fun optimizeNodeConnections_routes ::
  "string list \<Rightarrow> schedule_algorithm \<Rightarrow> (error + unit) \<times> schedule_algorithm" where
  "optimizeNodeConnections_routes [] s = (Inr (), s)"
| "optimizeNodeConnections_routes (route # rest) s =
     (case evaluateNodeConnections route s of
        (Inl e, s1) \<Rightarrow> (Inl e, s1)
      | (Inr route_conn_time, s1) \<Rightarrow>
          (case minimizeRouteWaitTime route
                  (print_line (''Route '' @ route @ '' wait time: '' @ str_int route_conn_time @ ''s'')
                     s1) of
             (Inl e, s2) \<Rightarrow> (Inl e, s2)
           | (Inr u, s2) \<Rightarrow> optimizeNodeConnections_routes rest s2))"

fun optimizeNodeConnections_categories ::
  "int list \<Rightarrow> (int \<times> string list) list \<Rightarrow> schedule_algorithm \<Rightarrow>
     (error + unit) \<times> schedule_algorithm" where
  "optimizeNodeConnections_categories [] prioritized_routes s = (Inr (), s)"
| "optimizeNodeConnections_categories (priority_category # rest) prioritized_routes s =
     (case dict_get prioritized_routes priority_category of Inl e \<Rightarrow> (Inl e, s)
      | Inr category_routes \<Rightarrow>
          (case optimizeNodeConnections_routes category_routes s of
             (Inl e, s1) \<Rightarrow> (Inl e, s1)
           | (Inr u, s1) \<Rightarrow> optimizeNodeConnections_categories rest prioritized_routes s1))"

definition optimizeNodeConnections ::
  "schedule_algorithm \<Rightarrow> ((error + unit) \<times> schedule_algorithm) option" where
  "optimizeNodeConnections s =
     (let route_node_numbers = calculateNodeNumber s;
          priority_routes = priority s
      in case getOrderedRoutes priority_routes of
           None \<Rightarrow> None
         | Some (Inl e) \<Rightarrow> Some (Inl e, s)
         | Some (Inr prioritized_routes) \<Rightarrow>
             Some (optimizeNodeConnections_categories (map fst prioritized_routes)
                     prioritized_routes s))"

section \<open>Properties of the frequency expander\<close>

text \<open>
  With a frequency of at least one minute the loop ends: it appends to \<open>minutes\<close> the
  values \<open>c, c + F, c + 2F, \<dots>\<close> below 60, in increasing order.
\<close>

lemma calculateFrequencyMinutes_loop_returns:
  assumes "1 \<le> F"
  shows "\<exists>xs. calculateFrequencyMinutes_loop F c ms = Some (ms @ xs) \<and> sorted_wrt (<) xs \<and>
              set xs = {m. m < 60 \<and> (\<exists>k::nat. m = c + int k * F)}"
proof (induction "nat (60 - c)" arbitrary: c ms rule: less_induct)
  case less
  show ?case
  proof (cases "c < 60")
    case False
    have "{m. m < 60 \<and> (\<exists>k::nat. m = c + int k * F)} = {}"
    proof -
      have "\<not> c + int k * F < 60" for k :: nat
      proof -
        have "0 \<le> int k * F" using assms by simp
        with False show ?thesis by linarith
      qed
      then show ?thesis by auto
    qed
    with False show ?thesis
      by (subst calculateFrequencyMinutes_loop.simps) simp
  next
    case True
    have "nat (60 - (c + F)) < nat (60 - c)" using True assms by simp
    from less[OF this, of "ms @ [c]"] obtain xs where
      xs: "calculateFrequencyMinutes_loop F (c + F) (ms @ [c]) = Some ((ms @ [c]) @ xs)"
          "sorted_wrt (<) xs" "set xs = {m. m < 60 \<and> (\<exists>k::nat. m = c + F + int k * F)}"
      by blast
    have gt: "\<forall>m\<in>set xs. c < m"
    proof
      fix m assume "m \<in> set xs"
      then obtain k :: nat where "m = c + F + int k * F" using xs(3) by auto
      moreover have "0 \<le> int k * F" using assms by simp
      ultimately show "c < m" using assms by linarith
    qed
    have set_eq: "set (c # xs) = {m. m < 60 \<and> (\<exists>k::nat. m = c + int k * F)}"
    proof (rule set_eqI, rule iffI)
      fix m assume "m \<in> set (c # xs)"
      then consider "m = c" | "m \<in> set xs" by auto
      then show "m \<in> {m. m < 60 \<and> (\<exists>k::nat. m = c + int k * F)}"
      proof cases
        case 1
        then have "m = c + int 0 * F" by simp
        with True 1 show ?thesis by blast
      next
        case 2
        then obtain k :: nat where k: "m < 60" "m = c + F + int k * F" using xs(3) by auto
        then have "m = c + int (Suc k) * F" by (simp add: algebra_simps)
        with k(1) show ?thesis by blast
      qed
    next
      fix m assume "m \<in> {m. m < 60 \<and> (\<exists>k::nat. m = c + int k * F)}"
      then obtain k :: nat where k: "m < 60" "m = c + int k * F" by auto
      show "m \<in> set (c # xs)"
      proof (cases k)
        case 0
        with k show ?thesis by simp
      next
        case (Suc j)
        with k have "m = c + F + int j * F" by (simp add: algebra_simps)
        with k(1) xs(3) show ?thesis by auto
      qed
    qed
    have "calculateFrequencyMinutes_loop F c ms = Some (ms @ (c # xs))"
      using True xs(1) by (subst calculateFrequencyMinutes_loop.simps) simp
    moreover have "sorted_wrt (<) (c # xs)" using xs(2) gt by simp
    ultimately show ?thesis using set_eq by blast
  qed
qed

text \<open>
  Claim C3. For every integer frequency \<open>F\<close> and shift \<open>S \<ge> 0\<close>:
  \<^verbatim>\<open>calculateFrequencyMinutes(F, S)\<close> returns Python's \<^verbatim>\<open>None\<close> when \<open>F\<close> is outside
  \<open>[1, 60]\<close>; otherwise it returns the strictly increasing list of exactly the values
  \<open>S + k * F\<close> (\<open>k = 0, 1, 2, \<dots>\<close>) that are below 60, which is empty when \<open>S \<ge> 60\<close>.
  In particular \<open>expand(15, 0) = [0, 15, 30, 45]\<close>, \<open>expand(60, 0) = [0]\<close>, and
  \<open>expand(61, 0)\<close> and \<open>expand(0, 0)\<close> return \<^verbatim>\<open>None\<close>.
\<close>

theorem calculateFrequencyMinutes_expand:
  assumes "0 \<le> S"
  shows "((F < 1 \<or> 60 < F) \<longrightarrow> calculateFrequencyMinutes F S = Some None) \<and>
         (1 \<le> F \<and> F \<le> 60 \<longrightarrow>
            (\<exists>ms. calculateFrequencyMinutes F S = Some (Some ms) \<and> sorted_wrt (<) ms \<and>
                  set ms = {m. m < 60 \<and> (\<exists>k::nat. m = S + int k * F)} \<and>
                  (60 \<le> S \<longrightarrow> ms = []))) \<and>
         calculateFrequencyMinutes 15 0 = Some (Some [0, 15, 30, 45]) \<and>
         calculateFrequencyMinutes 60 0 = Some (Some [0]) \<and>
         calculateFrequencyMinutes 61 0 = Some None \<and>
         calculateFrequencyMinutes 0 0 = Some None"
proof -
  have out: "(F < 1 \<or> 60 < F) \<longrightarrow> calculateFrequencyMinutes F S = Some None"
    by (auto simp: calculateFrequencyMinutes_def)
  have inside: "\<exists>ms. calculateFrequencyMinutes F S = Some (Some ms) \<and> sorted_wrt (<) ms \<and>
                  set ms = {m. m < 60 \<and> (\<exists>k::nat. m = S + int k * F)} \<and>
                  (60 \<le> S \<longrightarrow> ms = [])"
    if F: "1 \<le> F" "F \<le> 60"
  proof -
    from calculateFrequencyMinutes_loop_returns[OF F(1), of S "[]"] obtain ms where
      ms: "calculateFrequencyMinutes_loop F S [] = Some ms" "sorted_wrt (<) ms"
          "set ms = {m. m < 60 \<and> (\<exists>k::nat. m = S + int k * F)}"
      by auto
    have "ms = []" if "60 \<le> S"
    proof -
      have "\<not> S + int k * F < 60" for k :: nat
      proof -
        have "0 \<le> int k * F" using F by simp
        with that show ?thesis by linarith
      qed
      with ms(3) have "set ms = {}" by auto
      then show ?thesis by simp
    qed
    with ms F show ?thesis by (simp add: calculateFrequencyMinutes_def)
  qed
  have e1: "calculateFrequencyMinutes 15 0 = Some (Some [0, 15, 30, 45])"
    by (simp add: calculateFrequencyMinutes_def calculateFrequencyMinutes_loop.simps)
  have e2: "calculateFrequencyMinutes 60 0 = Some (Some [0])"
    by (simp add: calculateFrequencyMinutes_def calculateFrequencyMinutes_loop.simps)
  have e3: "calculateFrequencyMinutes 61 0 = Some None"
    by (simp add: calculateFrequencyMinutes_def)
  have e4: "calculateFrequencyMinutes 0 0 = Some None"
    by (simp add: calculateFrequencyMinutes_def)
  from out inside e1 e2 e3 e4 show ?thesis by blast
qed

theorem calculateFrequencyMinutes_expand_witness:
  "(0::int) \<le> 5 \<and>
   (\<exists>ms. calculateFrequencyMinutes 20 5 = Some (Some ms) \<and> sorted_wrt (<) ms \<and>
         set ms = {m. m < 60 \<and> (\<exists>k::nat. m = 5 + int k * 20)})"
  using calculateFrequencyMinutes_expand [of 5 20] by simp

section \<open>Properties of the route priority orderer\<close>

lemma py_min_Min: "xs \<noteq> [] \<Longrightarrow> py_min xs = Inr (Min (set xs))"
  by (cases xs) (simp_all add: Min.set_eq_fold[symmetric])

lemma list_index_first:
  "v \<in> set xs \<Longrightarrow>
   \<exists>i. list_index xs v = Inr i \<and> i < length xs \<and> xs ! i = v \<and> (\<forall>j<i. xs ! j \<noteq> v)"
proof (induction xs)
  case Nil
  then show ?case by simp
next
  case (Cons x xs)
  show ?case
  proof (cases "x = v")
    case True
    then show ?thesis by simp
  next
    case False
    with Cons.prems have "v \<in> set xs" by simp
    from Cons.IH[OF this] obtain i where
      i: "list_index xs v = Inr i" "i < length xs" "xs ! i = v" "\<forall>j<i. xs ! j \<noteq> v"
      by blast
    have "\<forall>j<Suc i. (x # xs) ! j \<noteq> v"
    proof (intro allI impI)
      fix j assume "j < Suc i"
      then show "(x # xs) ! j \<noteq> v" using False i(4) by (cases j) auto
    qed
    with False i show ?thesis by simp
  qed
qed

lemma arrangeRoutes_select_order:
  fixes rs :: "int list"
  assumes rows: "priority s = rows" "\<forall>p\<in>set rows. p \<noteq> []"
    and len: "length rs = length rows" "length L = length rows"
    and ranks: "\<forall>r\<in>set rs. r < 20"
    and L: "\<forall>i<length rows. L ! i = (if i \<in> set sel then 20 else rs ! i)"
    and sel: "distinct sel" "set sel \<subseteq> {..<length rows}"
    and n: "n + length sel = length rows"
    and srt: "sorted_wrt (\<lambda>i j. rs ! i < rs ! j \<or> (rs ! i = rs ! j \<and> i < j)) sel"
    and sep: "\<forall>i\<in>set sel. \<forall>j<length rows. j \<notin> set sel \<longrightarrow>
                rs ! i < rs ! j \<or> (rs ! i = rs ! j \<and> i < j)"
  shows "\<exists>sel'. arrangeRoutes_select n L s =
            (Inr (), s\<lparr>routes_order := routes_order s @ map (\<lambda>i. hd (rows ! i)) sel'\<rparr>) \<and>
          distinct (sel @ sel') \<and> set (sel @ sel') \<subseteq> {..<length rows} \<and>
          length (sel @ sel') = length rows \<and>
          sorted_wrt (\<lambda>i j. rs ! i < rs ! j \<or> (rs ! i = rs ! j \<and> i < j)) (sel @ sel')"
  using assms
proof (induction n arbitrary: L s sel)
  case 0
  then show ?case by (intro exI[of _ "[]"]) simp
next
  case (Suc n)
  let ?N = "length rows"
  let ?lt = "\<lambda>i j. rs ! i < rs ! j \<or> (rs ! i = rs ! j \<and> i < j)"
  have "card (set sel) < ?N" using Suc.prems(7,9) by (simp add: distinct_card)
  then have "set sel \<noteq> {..<?N}" by (metis card_lessThan less_irrefl)
  then obtain j0 where j0: "j0 < ?N" "j0 \<notin> set sel"
    using Suc.prems(8) by auto
  have Lne: "L \<noteq> []" using j0 Suc.prems(4) by auto
  define m where "m = Min (set L)"
  have pm: "py_min L = Inr m" using Lne by (simp add: py_min_Min m_def)
  have m_in: "m \<in> set L" using Lne by (simp add: m_def)
  have m_le: "\<forall>x\<in>set L. m \<le> x" by (simp add: m_def)
  from list_index_first[OF m_in] obtain i where
    i: "list_index L m = Inr i" "i < length L" "L ! i = m" "\<forall>j<i. L ! j \<noteq> m" by blast
  have iN: "i < ?N" using i(2) Suc.prems(4) by simp
  have "L ! j0 = rs ! j0" using j0 Suc.prems(6) by simp
  moreover have "rs ! j0 < 20" using Suc.prems(3,5) j0 by simp
  moreover have "L ! j0 \<in> set L" using j0 Suc.prems(4) by simp
  ultimately have m20: "m < 20" using m_le by fastforce
  have i_unsel: "i \<notin> set sel" using Suc.prems(6) iN i(3) m20 by auto
  have Li: "rs ! i = m" using Suc.prems(6) iN i(3) i_unsel by auto
  have i_first: "?lt i j" if "j < ?N" "j \<notin> set sel" "j \<noteq> i" for j
  proof -
    have Lj: "L ! j = rs ! j" using that Suc.prems(6) by simp
    have "L ! j \<in> set L" using that Suc.prems(4) by simp
    then have "m \<le> rs ! j" using m_le Lj by fastforce
    moreover have "i < j" if "rs ! j = m"
    proof (rule ccontr)
      assume "\<not> i < j"
      with \<open>j \<noteq> i\<close> have "j < i" by simp
      with i(4) Lj that show False by simp
    qed
    ultimately show ?thesis using Li by force
  qed
  have pi: "py_index (priority s) i = Inr (rows ! i)"
    using iN Suc.prems(1) by (simp add: py_index_def)
  have "rows ! i \<in> set rows" using iN by simp
  then have ne: "rows ! i \<noteq> []" using Suc.prems(2) by blast
  then have ph: "py_index (rows ! i) 0 = Inr (hd (rows ! i))"
    by (cases "rows ! i") (simp_all add: py_index_def)
  let ?s' = "s\<lparr>routes_order := routes_order s @ [hd (rows ! i)]\<rparr>"
  let ?L' = "L[i := 20]"
  let ?sel' = "sel @ [i]"
  have step: "arrangeRoutes_select (Suc n) L s = arrangeRoutes_select n ?L' ?s'"
    using pm i(1) pi ph by simp
  have A1: "priority ?s' = rows" using Suc.prems(1) by simp
  have A4: "length ?L' = ?N" using Suc.prems(4) by simp
  have A6: "\<forall>k<?N. ?L' ! k = (if k \<in> set ?sel' then 20 else rs ! k)"
  proof (intro allI impI)
    fix k assume k: "k < ?N"
    have "L ! k = (if k \<in> set sel then 20 else rs ! k)" using Suc.prems(6) k by blast
    then show "?L' ! k = (if k \<in> set ?sel' then 20 else rs ! k)"
      using k Suc.prems(4) by (cases "k = i") (simp_all add: nth_list_update)
  qed
  have A7: "distinct ?sel'" using Suc.prems(7) i_unsel by simp
  have A8: "set ?sel' \<subseteq> {..<?N}" using Suc.prems(8) iN by simp
  have A9: "n + length ?sel' = ?N" using Suc.prems(9) by simp
  have A10: "sorted_wrt ?lt ?sel'"
    using Suc.prems(10) Suc.prems(11) iN i_unsel by (simp add: sorted_wrt_append)
  have A11: "\<forall>a\<in>set ?sel'. \<forall>j<?N. j \<notin> set ?sel' \<longrightarrow> ?lt a j"
    using Suc.prems(11) i_first by auto
  from Suc.IH[OF A1 Suc.prems(2) Suc.prems(3) A4 Suc.prems(5) A6 A7 A8 A9 A10 A11]
  obtain sel' where
    r: "arrangeRoutes_select n ?L' ?s' =
          (Inr (), ?s'\<lparr>routes_order := routes_order ?s' @ map (\<lambda>i. hd (rows ! i)) sel'\<rparr>)"
       "distinct (?sel' @ sel')" "set (?sel' @ sel') \<subseteq> {..<?N}"
       "length (?sel' @ sel') = ?N" "sorted_wrt ?lt (?sel' @ sel')"
    by blast
  show ?case
  proof (intro exI[of _ "i # sel'"] conjI)
    show "arrangeRoutes_select (Suc n) L s =
      (Inr (), s\<lparr>routes_order := routes_order s @ map (\<lambda>i. hd (rows ! i)) (i # sel')\<rparr>)"
      using step r(1) by simp
  qed (use r in simp_all)
qed


lemma arrangeRoutes_stops_wf:
  "\<forall>rp\<in>set rts. 6 \<le> length rp \<Longrightarrow>
   arrangeRoutes_stops rts route =
     Inr (map (\<lambda>rp. (rp ! 4, rp ! 5)) (filter (\<lambda>rp. rp ! 0 = route \<and> rp ! 4 \<noteq> []) rts))"
  by (induction rts) (auto simp: py_index_def)

lemma arrangeRoutes_register_wf:
  assumes "\<forall>rp\<in>set (routes s). 6 \<le> length rp" "\<forall>p\<in>set ps. p \<noteq> []"
  shows "\<exists>s'. arrangeRoutes_register ps s = (Inr (), s') \<and> priority s' = priority s \<and>
           routes s' = routes s \<and> routes_order s' = routes_order s \<and>
           (\<forall>x. map_of (routes_stops s') x =
              (if x \<in> hd ` set ps
               then Some (map (\<lambda>rp. (rp ! 4, rp ! 5))
                            (filter (\<lambda>rp. rp ! 0 = x \<and> rp ! 4 \<noteq> []) (routes s)))
               else map_of (routes_stops s) x))"
  using assms
proof (induction ps arbitrary: s)
  case Nil
  then show ?case by simp
next
  case (Cons p ps)
  from Cons.prems(2) have pne: "p \<noteq> []" by simp
  then have p0: "py_index p 0 = Inr (hd p)" by (cases p) (simp_all add: py_index_def)
  let ?stops = "map (\<lambda>rp. (rp ! 4, rp ! 5)) (filter (\<lambda>rp. rp ! 0 = hd p \<and> rp ! 4 \<noteq> []) (routes s))"
  let ?s1 = "s\<lparr>routes_stops := AList.update (hd p) ?stops (routes_stops s),
               routes_schedules := AList.update (hd p) [] (routes_schedules s)\<rparr>"
  have step: "arrangeRoutes_register (p # ps) s = arrangeRoutes_register ps ?s1"
    using p0 arrangeRoutes_stops_wf[OF Cons.prems(1), of "hd p"] by simp
  have wf1: "\<forall>rp\<in>set (routes ?s1). 6 \<le> length rp" using Cons.prems(1) by simp
  have ne1: "\<forall>p\<in>set ps. p \<noteq> []" using Cons.prems(2) by simp
  from Cons.IH[OF wf1 ne1] obtain s' where
    s': "arrangeRoutes_register ps ?s1 = (Inr (), s')" "priority s' = priority ?s1"
        "routes s' = routes ?s1" "routes_order s' = routes_order ?s1"
        "\<forall>x. map_of (routes_stops s') x =
              (if x \<in> hd ` set ps
               then Some (map (\<lambda>rp. (rp ! 4, rp ! 5))
                            (filter (\<lambda>rp. rp ! 0 = x \<and> rp ! 4 \<noteq> []) (routes ?s1)))
               else map_of (routes_stops ?s1) x)"
    by blast
  have "\<forall>x. map_of (routes_stops s') x =
              (if x \<in> hd ` set (p # ps)
               then Some (map (\<lambda>rp. (rp ! 4, rp ! 5))
                            (filter (\<lambda>rp. rp ! 0 = x \<and> rp ! 4 \<noteq> []) (routes s)))
               else map_of (routes_stops s) x)"
    using s'(5) by (simp add: update_conv')
  with step s'(1-4) show ?case by simp
qed

lemma arrangeRoutes_select_frame:
  "routes_stops (snd (arrangeRoutes_select n L s)) = routes_stops s"
  by (induction n arbitrary: L s) (auto split: sum.splits)

lemma priority_ranks_shape:
  "priority_ranks rows = Inr rs \<Longrightarrow> length rs = length rows \<and> (\<forall>p\<in>set rows. p \<noteq> [])"
  by (induction rows arbitrary: rs) (auto simp: py_index_def split: sum.splits if_splits)

text \<open>
  Claim C1, as amended. The claim as stated (rows with a blank travel time, cell 5, are
  left out) does not hold: line 44 tests cell 4, the stop id. For a route table whose rows
  have at least six cells and every route id \<open>p[0]\<close> of a priority row \<open>p\<close> after the header,
  \<^verbatim>\<open>routes_stops[p[0]]\<close> after \<^verbatim>\<open>arrangeRoutes\<close> is exactly the list of the route's rows
  whose stop id (cell 4) is not blank, projected to (stop id, travel time), in table order;
  the travel time plays no part in the selection.
\<close>

theorem arrangeRoutes_routes_stops:
  assumes "priority s = header # rows"
    and "\<forall>route_point\<in>set (routes s). 6 \<le> length route_point"
    and "\<forall>p\<in>set rows. p \<noteq> []"
    and "p \<in> set rows"
  shows "dict_get (routes_stops (snd (arrangeRoutes s))) (p ! 0) =
           Inr (map (\<lambda>route_point. (route_point ! 4, route_point ! 5))
                  (filter (\<lambda>route_point. route_point ! 0 = p ! 0 \<and> route_point ! 4 \<noteq> [])
                     (routes s)))"
proof -
  let ?s0 = "s\<lparr>priority := rows\<rparr>"
  have wf: "\<forall>rp\<in>set (routes ?s0). 6 \<le> length rp" using assms(2) by simp
  from arrangeRoutes_register_wf[OF wf assms(3)] obtain s1 where
    s1: "arrangeRoutes_register rows ?s0 = (Inr (), s1)"
        "\<forall>x. map_of (routes_stops s1) x =
              (if x \<in> hd ` set rows
               then Some (map (\<lambda>rp. (rp ! 4, rp ! 5))
                            (filter (\<lambda>rp. rp ! 0 = x \<and> rp ! 4 \<noteq> []) (routes ?s0)))
               else map_of (routes_stops ?s0) x)"
    by blast
  have "routes_stops (snd (arrangeRoutes s)) = routes_stops s1"
    using assms(1) s1(1)
    by (simp add: arrangeRoutes_def Let_def arrangeRoutes_select_frame split: sum.splits)
  moreover have "p ! 0 = hd p" using assms(3,4) by (simp add: hd_conv_nth)
  moreover have "hd p \<in> hd ` set rows" using assms(4) by simp
  ultimately show ?thesis using s1(2) by (simp add: dict_get_def)
qed

theorem arrangeRoutes_routes_stops_witness:
  "dict_get (routes_stops (snd (arrangeRoutes
      \<lparr>routes = [[''27'', ''0'', ''1'', ''x'', ''A'', ''0''],
                 [''27'', ''0'', ''2'', ''x'', '''', ''60''],
                 [''27'', ''0'', ''3'', ''x'', ''B'', ''120''],
                 [''28'', ''0'', ''1'', ''x'', ''C'', ''45'']],
        nodes = [], frequency = [],
        priority = [[''route'', ''priority''], [''27'', ''1''], [''28'', ''2'']],
        routes_stops = [], routes_schedules = [], routes_order = [], stdout = []\<rparr>))) ''27'' =
     Inr [(''A'', ''0''), (''B'', ''120'')]"
  using arrangeRoutes_routes_stops [of
      "\<lparr>routes = [[''27'', ''0'', ''1'', ''x'', ''A'', ''0''],
                 [''27'', ''0'', ''2'', ''x'', '''', ''60''],
                 [''27'', ''0'', ''3'', ''x'', ''B'', ''120''],
                 [''28'', ''0'', ''1'', ''x'', ''C'', ''45'']],
        nodes = [], frequency = [],
        priority = [[''route'', ''priority''], [''27'', ''1''], [''28'', ''2'']],
        routes_stops = [], routes_schedules = [], routes_order = [], stdout = []\<rparr>"
      "[''route'', ''priority'']" "[[''27'', ''1''], [''28'', ''2'']]" "[''27'', ''1'']"]
  by simp

text \<open>
  The claim as stated fails on a row with a stop id and a blank travel time: the row is
  kept, although the list of the rows with a non-blank travel time does not hold it.
\<close>

theorem arrangeRoutes_routes_stops_counterexample:
  "dict_get (routes_stops (snd (arrangeRoutes
      \<lparr>routes = [[''27'', ''0'', ''1'', ''x'', ''A'', ''''],
                 [''27'', ''0'', ''2'', ''x'', ''B'', ''120'']],
        nodes = [], frequency = [],
        priority = [[''route'', ''priority''], [''27'', ''1'']],
        routes_stops = [], routes_schedules = [], routes_order = [], stdout = []\<rparr>))) ''27'' =
     Inr [(''A'', ''''), (''B'', ''120'')] \<and>
   map (\<lambda>route_point. (route_point ! 4, route_point ! 5))
     (filter (\<lambda>route_point. route_point ! 0 = ''27'' \<and> route_point ! 5 \<noteq> '''')
        [[''27'', ''0'', ''1'', ''x'', ''A'', ''''],
         [''27'', ''0'', ''2'', ''x'', ''B'', ''120'']]) =
     [(''B'', ''120'')]"
  by (simp add: arrangeRoutes_def py_index_def dict_get_def py_int_def strip_def is_space_def
        int_literal_def is_digit_def digit_val_def)

lemma arrangeRoutes_select_sorted:
  assumes "priority s = rows" "priority_ranks rows = Inr rs" "\<forall>r\<in>set rs. r < 20"
  shows "\<exists>sel. arrangeRoutes_select (length rows) rs s =
            (Inr (), s\<lparr>routes_order := routes_order s @ map (\<lambda>i. hd (rows ! i)) sel\<rparr>) \<and>
          mset sel = mset [0..<length rows] \<and>
          sorted_wrt (\<lambda>i j. rs ! i < rs ! j \<or> (rs ! i = rs ! j \<and> i < j)) sel"
proof -
  from priority_ranks_shape[OF assms(2)] have
    shape: "length rs = length rows" "\<forall>p\<in>set rows. p \<noteq> []" by simp_all
  have "\<exists>sel'. arrangeRoutes_select (length rows) rs s =
            (Inr (), s\<lparr>routes_order := routes_order s @ map (\<lambda>i. hd (rows ! i)) sel'\<rparr>) \<and>
          distinct ([] @ sel') \<and> set ([] @ sel') \<subseteq> {..<length rows} \<and>
          length ([] @ sel') = length rows \<and>
          sorted_wrt (\<lambda>i j. rs ! i < rs ! j \<or> (rs ! i = rs ! j \<and> i < j)) ([] @ sel')"
    by (rule arrangeRoutes_select_order[OF assms(1) shape(2) shape(1) shape(1) assms(3)]) simp_all
  then obtain sel where
    sel: "arrangeRoutes_select (length rows) rs s =
            (Inr (), s\<lparr>routes_order := routes_order s @ map (\<lambda>i. hd (rows ! i)) sel\<rparr>)"
         "distinct sel" "set sel \<subseteq> {..<length rows}" "length sel = length rows"
         "sorted_wrt (\<lambda>i j. rs ! i < rs ! j \<or> (rs ! i = rs ! j \<and> i < j)) sel"
    by auto
  have "card (set sel) = card {..<length rows}" using sel(2,4) by (simp add: distinct_card)
  with sel(3) have "set sel = {..<length rows}" by (simp add: card_subset_eq)
  then have "set sel = set [0..<length rows]" by (simp add: lessThan_atLeast0)
  then have "mset sel = mset [0..<length rows]"
    using sel(2) by (metis set_eq_iff_mset_eq_distinct distinct_upt)
  with sel(1,5) show ?thesis by blast
qed

text \<open>
  Claim C4, as amended. The claim as stated (every route id appears exactly once) fails
  on a table that lists a route id in two rows: the id is then appended once for each of
  its rows. For a priority table whose ranks (after the header row) all lie in \<open>[1, 19]\<close>
  and a route table whose rows have at least six cells, \<^verbatim>\<open>arrangeRoutes\<close> returns and
  \<open>routes_order\<close> lists the route ids of the rows \<open>sel\<close>, where \<open>sel\<close> is a permutation of
  the row positions (every row taken exactly once) in ascending order of rank, rows of
  equal rank in table order. So \<open>routes_order\<close> holds the route id of every row, as often
  as the table lists it; when the route ids of the table are distinct, every route id
  appears exactly once.
\<close>

theorem arrangeRoutes_routes_order:
  assumes "priority s = header # rows"
    and "priority_ranks rows = Inr rs"
    and "\<forall>r\<in>set rs. 1 \<le> r \<and> r \<le> 19"
    and "\<forall>route_point\<in>set (routes s). 6 \<le> length route_point"
  shows "\<exists>sel. fst (arrangeRoutes s) = Inr () \<and>
           routes_order (snd (arrangeRoutes s)) = map (\<lambda>i. rows ! i ! 0) sel \<and>
           mset sel = mset [0..<length rows] \<and>
           sorted_wrt (\<lambda>i j. rs ! i < rs ! j \<or> (rs ! i = rs ! j \<and> i < j)) sel \<and>
           mset (routes_order (snd (arrangeRoutes s))) = mset (map (\<lambda>p. p ! 0) rows) \<and>
           (distinct (map (\<lambda>p. p ! 0) rows) \<longrightarrow> distinct (routes_order (snd (arrangeRoutes s))))"
proof -
  let ?s0 = "s\<lparr>priority := rows\<rparr>"
  from priority_ranks_shape[OF assms(2)] have
    shape: "length rs = length rows" "\<forall>p\<in>set rows. p \<noteq> []" by simp_all
  have wf: "\<forall>rp\<in>set (routes ?s0). 6 \<le> length rp" using assms(4) by simp
  from arrangeRoutes_register_wf[OF wf shape(2)] obtain s1 where
    s1: "arrangeRoutes_register rows ?s0 = (Inr (), s1)" "priority s1 = priority ?s0"
    by blast
  let ?s2 = "s1\<lparr>routes_order := []\<rparr>"
  have p2: "priority ?s2 = rows" using s1(2) by simp
  have lt: "\<forall>r\<in>set rs. r < 20" using assms(3) by auto
  from arrangeRoutes_select_sorted[OF p2 assms(2) lt] obtain sel where
    sel: "arrangeRoutes_select (length rows) rs ?s2 =
            (Inr (), ?s2\<lparr>routes_order := routes_order ?s2 @ map (\<lambda>i. hd (rows ! i)) sel\<rparr>)"
         "mset sel = mset [0..<length rows]"
         "sorted_wrt (\<lambda>i j. rs ! i < rs ! j \<or> (rs ! i = rs ! j \<and> i < j)) sel"
    by blast
  have run: "arrangeRoutes s =
      (Inr (), ?s2\<lparr>routes_order := routes_order ?s2 @ map (\<lambda>i. hd (rows ! i)) sel\<rparr>)"
    using assms(1,2) s1 sel(1) by (simp add: arrangeRoutes_def)
  have hd0: "hd p = p ! 0" if "p \<in> set rows" for p
    using that shape(2) by (simp add: hd_conv_nth)
  have "set sel = set [0..<length rows]" using sel(2) by (metis mset_eq_setD)
  then have in_rows: "\<forall>i\<in>set sel. rows ! i \<in> set rows" by simp
  have order: "routes_order (snd (arrangeRoutes s)) = map (\<lambda>i. rows ! i ! 0) sel"
    using run in_rows hd0 by simp
  have "mset (map (\<lambda>i. rows ! i ! 0) sel) = image_mset (\<lambda>i. rows ! i ! 0) (mset [0..<length rows])"
    using sel(2) by (metis mset_map)
  also have "\<dots> = mset (map (\<lambda>p. p ! 0) (map (\<lambda>i. rows ! i) [0..<length rows]))"
    by (simp add: comp_def)
  also have "\<dots> = mset (map (\<lambda>p. p ! 0) rows)" by (simp only: map_nth)
  finally have perm: "mset (routes_order (snd (arrangeRoutes s))) = mset (map (\<lambda>p. p ! 0) rows)"
    using order by simp
  have ok: "fst (arrangeRoutes s) = Inr ()" using run by simp
  have once: "distinct (map (\<lambda>p. p ! 0) rows) \<longrightarrow> distinct (routes_order (snd (arrangeRoutes s)))"
    using perm by (metis mset_eq_imp_distinct_iff)
  from ok order sel(2) sel(3) perm once show ?thesis by blast
qed

theorem arrangeRoutes_routes_order_witness:
  "\<exists>sel. fst (arrangeRoutes
      \<lparr>routes = [], nodes = [], frequency = [],
        priority = [[''route'', ''priority''], [''10'', ''2''], [''11'', ''1''], [''12'', ''2'']],
        routes_stops = [], routes_schedules = [], routes_order = [], stdout = []\<rparr>) = Inr () \<and>
     routes_order (snd (arrangeRoutes
      \<lparr>routes = [], nodes = [], frequency = [],
        priority = [[''route'', ''priority''], [''10'', ''2''], [''11'', ''1''], [''12'', ''2'']],
        routes_stops = [], routes_schedules = [], routes_order = [], stdout = []\<rparr>)) =
       map (\<lambda>i. [[''10'', ''2''], [''11'', ''1''], [''12'', ''2'']] ! i ! 0) sel \<and>
     mset sel = mset [0..<length [[''10'', ''2''], [''11'', ''1''], [''12'', ''2'']]] \<and>
     sorted_wrt (\<lambda>i j. [2, 1, 2 :: int] ! i < [2, 1, 2] ! j \<or>
                        ([2, 1, 2 :: int] ! i = [2, 1, 2] ! j \<and> i < j)) sel \<and>
     mset (routes_order (snd (arrangeRoutes
      \<lparr>routes = [], nodes = [], frequency = [],
        priority = [[''route'', ''priority''], [''10'', ''2''], [''11'', ''1''], [''12'', ''2'']],
        routes_stops = [], routes_schedules = [], routes_order = [], stdout = []\<rparr>))) =
       mset (map (\<lambda>p. p ! 0) [[''10'', ''2''], [''11'', ''1''], [''12'', ''2'']]) \<and>
     distinct (routes_order (snd (arrangeRoutes
      \<lparr>routes = [], nodes = [], frequency = [],
        priority = [[''route'', ''priority''], [''10'', ''2''], [''11'', ''1''], [''12'', ''2'']],
        routes_stops = [], routes_schedules = [], routes_order = [], stdout = []\<rparr>)))"
proof -
  have h1: "priority \<lparr>routes = [], nodes = [], frequency = [],
        priority = [[''route'', ''priority''], [''10'', ''2''], [''11'', ''1''], [''12'', ''2'']],
        routes_stops = [], routes_schedules = [], routes_order = [], stdout = []\<rparr> =
      [''route'', ''priority''] # [[''10'', ''2''], [''11'', ''1''], [''12'', ''2'']]"
    by simp
  have h2: "priority_ranks [[''10'', ''2''], [''11'', ''1''], [''12'', ''2'']] = Inr [2, 1, 2]"
    by (simp add: py_index_def py_int_def strip_def is_space_def int_literal_def is_digit_def
          digit_val_def)
  have h3: "\<forall>r\<in>set [2, 1, 2 :: int]. 1 \<le> r \<and> r \<le> 19" by simp
  have h4: "\<forall>route_point\<in>set (routes \<lparr>routes = [], nodes = [], frequency = [],
        priority = [[''route'', ''priority''], [''10'', ''2''], [''11'', ''1''], [''12'', ''2'']],
        routes_stops = [], routes_schedules = [], routes_order = [], stdout = []\<rparr>).
          6 \<le> length route_point"
    by simp
  have h5: "distinct (map (\<lambda>p. p ! 0) [[''10'', ''2''], [''11'', ''1''], [''12'', ''2'']])"
    by simp
  from arrangeRoutes_routes_order [OF h1 h2 h3 h4] h5 show ?thesis by blast
qed

text \<open>
  The claim as stated fails on a table that lists route 10 under the ranks 1 and 2, both
  in \<open>[1, 19]\<close>: the route id appears twice in \<open>routes_order\<close>.
\<close>

theorem arrangeRoutes_routes_order_counterexample:
  "priority_ranks [[''10'', ''1''], [''10'', ''2'']] = Inr [1, 2] \<and>
   arrangeRoutes
      \<lparr>routes = [], nodes = [], frequency = [],
        priority = [[''route'', ''priority''], [''10'', ''1''], [''10'', ''2'']],
        routes_stops = [], routes_schedules = [], routes_order = [], stdout = []\<rparr> =
     (Inr (),
      \<lparr>routes = [], nodes = [], frequency = [],
        priority = [[''10'', ''1''], [''10'', ''2'']],
        routes_stops = [(''10'', [])], routes_schedules = [(''10'', [])],
        routes_order = [''10'', ''10''], stdout = []\<rparr>) \<and>
   \<not> distinct [''10'', ''10'']"
  by (simp add: arrangeRoutes_def py_index_def py_int_def strip_def is_space_def
        int_literal_def is_digit_def digit_val_def)

section \<open>Properties of the priority buckets\<close>

lemma update_keys_present:
  "map_of al k = Some v \<Longrightarrow> map fst (AList.update k w al) = map fst al"
  by (induction al) (auto split: if_splits)

lemma update_keys_fresh:
  "k \<notin> fst ` set al \<Longrightarrow> map fst (AList.update k w al) = map fst al @ [k]"
  by (induction al) auto

lemma getOrderedRoutes_scan_inv:
  assumes "map_of sp n = Some b" "getOrderedRoutes_scan ps n sp = Inr sp'"
  shows "map fst sp' = map fst sp \<and> (\<forall>k. k \<noteq> n \<longrightarrow> map_of sp' k = map_of sp k) \<and>
         (\<exists>b'. map_of sp' n = Some b' \<and> (distinct b \<longrightarrow> distinct b') \<and>
               set b' \<subseteq> set b \<union> {p ! 0 | p. p \<in> set ps \<and> 2 \<le> length p \<and> py_int (p ! 1) = Inr n})"
  using assms
proof (induction ps arbitrary: sp b)
  case Nil
  then show ?case by simp
next
  case (Cons p ps)
  from Cons.prems(2) obtain c r where
    c: "py_index p 1 = Inr c" and r: "py_int c = Inr r"
    by (auto split: sum.splits)
  from c have len: "2 \<le> length p" and c1: "c = p ! 1"
    by (auto simp: py_index_def split: if_splits)
  from len have p0: "py_index p 0 = Inr (p ! 0)" by (cases p) (simp_all add: py_index_def)
  have dg: "dict_get sp n = Inr b" using Cons.prems(1) by (simp add: dict_get_def)
  show ?case
  proof (cases "r = n \<and> p ! 0 \<notin> set b")
    case True
    let ?sp1 = "AList.update n (b @ [p ! 0]) sp"
    have run: "getOrderedRoutes_scan ps n ?sp1 = Inr sp'"
      using Cons.prems(2) c r p0 dg True by simp
    have m1: "map_of ?sp1 n = Some (b @ [p ! 0])" by (simp add: update_conv')
    from Cons.IH[OF m1 run] obtain b' where
      ih: "map fst sp' = map fst ?sp1" "\<forall>k. k \<noteq> n \<longrightarrow> map_of sp' k = map_of ?sp1 k"
          "map_of sp' n = Some b'" "distinct (b @ [p ! 0]) \<longrightarrow> distinct b'"
          "set b' \<subseteq> set (b @ [p ! 0]) \<union>
             {p ! 0 | p. p \<in> set ps \<and> 2 \<le> length p \<and> py_int (p ! 1) = Inr n}"
      by blast
    have k1: "map fst sp' = map fst sp"
      using ih(1) update_keys_present[OF Cons.prems(1)] by simp
    have k2: "\<forall>k. k \<noteq> n \<longrightarrow> map_of sp' k = map_of sp k"
      using ih(2) by (simp add: update_conv')
    have k3: "distinct b \<longrightarrow> distinct b'" using ih(4) True by simp
    have k4: "set b' \<subseteq> set b \<union>
             {q ! 0 | q. q \<in> set (p # ps) \<and> 2 \<le> length q \<and> py_int (q ! 1) = Inr n}"
      using ih(5) True len r c1 by auto
    from k1 k2 ih(3) k3 k4 show ?thesis by blast
  next
    case False
    have run: "getOrderedRoutes_scan ps n sp = Inr sp'"
      using Cons.prems(2) c r p0 dg False by (auto split: if_splits)
    from Cons.IH[OF Cons.prems(1) run] obtain b' where
      ih: "map fst sp' = map fst sp" "\<forall>k. k \<noteq> n \<longrightarrow> map_of sp' k = map_of sp k"
          "map_of sp' n = Some b'" "distinct b \<longrightarrow> distinct b'"
          "set b' \<subseteq> set b \<union>
             {p ! 0 | p. p \<in> set ps \<and> 2 \<le> length p \<and> py_int (p ! 1) = Inr n}"
      by blast
    have k4: "set b' \<subseteq> set b \<union>
             {q ! 0 | q. q \<in> set (p # ps) \<and> 2 \<le> length q \<and> py_int (q ! 1) = Inr n}"
      using ih(5) by auto
    from ih(1-4) k4 show ?thesis by blast
  qed
qed

lemma getOrderedRoutes_loop_terminates:
  "n < 20 \<Longrightarrow> \<exists>res. getOrderedRoutes_loop pr n sp = Some res"
proof (induction "nat (20 - n)" arbitrary: n sp rule: less_induct)
  case less
  show ?case
  proof (cases "getOrderedRoutes_scan pr n (AList.update n [] sp)")
    case (Inl e)
    then show ?thesis by (subst getOrderedRoutes_loop.simps) simp
  next
    case (Inr sp')
    show ?thesis
    proof (cases "n + 1 = 20")
      case True
      with Inr show ?thesis by (subst getOrderedRoutes_loop.simps) simp
    next
      case False
      with less.prems have lt: "n + 1 < 20" by simp
      have "nat (20 - (n + 1)) < nat (20 - n)" using less.prems by simp
      from less.hyps[OF this lt, of sp'] obtain res where
        "getOrderedRoutes_loop pr (n + 1) sp' = Some res" by blast
      with Inr False show ?thesis by (subst getOrderedRoutes_loop.simps) simp
    qed
  qed
qed

lemma getOrderedRoutes_loop_buckets:
  assumes "n < 20" "getOrderedRoutes_loop pr n sp = Some (Inr res)"
    and "\<forall>k\<in>fst ` set sp. k < n"
  shows "map fst res = map fst sp @ [n..19] \<and>
         (\<forall>k<n. map_of res k = map_of sp k) \<and>
         (\<forall>k bucket. n \<le> k \<and> map_of res k = Some bucket \<longrightarrow>
            distinct bucket \<and>
            set bucket \<subseteq> {p ! 0 | p. p \<in> set pr \<and> 2 \<le> length p \<and> py_int (p ! 1) = Inr k})"
  using assms
proof (induction "nat (20 - n)" arbitrary: n sp rule: less_induct)
  case less
  let ?sp0 = "AList.update n [] sp"
  let ?ok = "\<lambda>k bucket. distinct bucket \<and>
            set bucket \<subseteq> {p ! 0 | p. p \<in> set pr \<and> 2 \<le> length p \<and> py_int (p ! 1) = Inr k}"
  have fresh: "n \<notin> fst ` set sp" using less.prems(3) by auto
  have keys0: "map fst ?sp0 = map fst sp @ [n]" using fresh by (rule update_keys_fresh)
  have m0: "map_of ?sp0 n = Some []" by (simp add: update_conv')
  from less.prems(2) obtain sp' where
    scan: "getOrderedRoutes_scan pr n ?sp0 = Inr sp'"
    by (subst (asm) getOrderedRoutes_loop.simps) (auto split: sum.splits)
  from getOrderedRoutes_scan_inv[OF m0 scan] obtain b' where
    inv: "map fst sp' = map fst ?sp0" "\<forall>k. k \<noteq> n \<longrightarrow> map_of sp' k = map_of ?sp0 k"
         "map_of sp' n = Some b'" "?ok n b'"
    by auto
  have keys': "set (map fst sp') = set (map fst sp) \<union> {n}" using inv(1) keys0 by simp
  have below: "\<forall>k<n. map_of sp' k = map_of sp k" using inv(2) by (simp add: update_conv')
  have only_n: "k = n" if "n \<le> k" "map_of sp' k = Some bucket" for k bucket
  proof -
    from that(2) have "k \<in> fst ` set sp'" by (metis map_of_eq_None_iff option.distinct(1))
    then have "k \<in> set (map fst sp) \<or> k = n" using keys' by auto
    with that(1) less.prems(3) show ?thesis by auto
  qed
  show ?case
  proof (cases "n + 1 = 20")
    case True
    have res: "res = sp'"
      using less.prems(2) scan True by (subst (asm) getOrderedRoutes_loop.simps) simp
    have up: "[n..19] = [n]" using True by (simp add: upto.simps)
    have c1: "map fst res = map fst sp @ [n..19]" using res inv(1) keys0 up by simp
    have c2: "\<forall>k<n. map_of res k = map_of sp k" using res below by simp
    have c3: "\<forall>k bucket. n \<le> k \<and> map_of res k = Some bucket \<longrightarrow> ?ok k bucket"
    proof (intro allI impI)
      fix k bucket assume a: "n \<le> k \<and> map_of res k = Some bucket"
      then have "k = n" using only_n res by blast
      with a res inv(3) have "bucket = b'" by simp
      with \<open>k = n\<close> inv(4) show "?ok k bucket" by simp
    qed
    from c1 c2 c3 show ?thesis by blast
  next
    case False
    with less.prems(1) have lt: "n + 1 < 20" by simp
    have dec: "nat (20 - (n + 1)) < nat (20 - n)" using less.prems(1) by simp
    have rec: "getOrderedRoutes_loop pr (n + 1) sp' = Some (Inr res)"
      using less.prems(2) scan False by (subst (asm) getOrderedRoutes_loop.simps) simp
    have small: "\<forall>k\<in>fst ` set sp'. k < n + 1"
    proof
      fix k assume "k \<in> fst ` set sp'"
      then have "k \<in> set (map fst sp) \<or> k = n" using keys' by auto
      with less.prems(3) show "k < n + 1" by auto
    qed
    from less.hyps[OF dec lt rec small] have
      ih: "map fst res = map fst sp' @ [n + 1..19]"
          "\<forall>k<n + 1. map_of res k = map_of sp' k"
          "\<forall>k bucket. n + 1 \<le> k \<and> map_of res k = Some bucket \<longrightarrow> ?ok k bucket"
      by blast+
    have up: "[n..19] = n # [n + 1..19]" using less.prems(1) by (simp add: upto.simps)
    have c1: "map fst res = map fst sp @ [n..19]" using ih(1) inv(1) keys0 up by simp
    have c2: "\<forall>k<n. map_of res k = map_of sp k" using ih(2) below by simp
    have c3: "\<forall>k bucket. n \<le> k \<and> map_of res k = Some bucket \<longrightarrow> ?ok k bucket"
    proof (intro allI impI)
      fix k bucket assume a: "n \<le> k \<and> map_of res k = Some bucket"
      show "?ok k bucket"
      proof (cases "k = n")
        case True
        with a ih(2) inv(3) have "bucket = b'" by simp
        with True inv(4) show ?thesis by simp
      next
        case False
        with a have "n + 1 \<le> k" by simp
        with a ih(3) show ?thesis by blast
      qed
    qed
    from c1 c2 c3 show ?thesis by blast
  qed
qed

lemma getOrderedRoutes_scan_returns:
  "priority_ranks ps = Inr rs \<Longrightarrow> map_of sp n = Some b \<Longrightarrow>
   \<exists>sp'. getOrderedRoutes_scan ps n sp = Inr sp'"
proof (induction ps arbitrary: rs sp b)
  case Nil
  then show ?case by simp
next
  case (Cons p ps)
  from Cons.prems(1) obtain c r rs' where
    c: "py_index p 1 = Inr c" and r: "py_int c = Inr r" and rest: "priority_ranks ps = Inr rs'"
    by (auto split: sum.splits)
  from c have "2 \<le> length p" by (auto simp: py_index_def split: if_splits)
  then have p0: "py_index p 0 = Inr (p ! 0)" by (cases p) (simp_all add: py_index_def)
  have dg: "dict_get sp n = Inr b" using Cons.prems(2) by (simp add: dict_get_def)
  have m1: "map_of (AList.update n (b @ [p ! 0]) sp) n = Some (b @ [p ! 0])"
    by (simp add: update_conv')
  from Cons.IH[OF rest m1] Cons.IH[OF rest Cons.prems(2)] show ?case
    using c r p0 dg by simp
qed

lemma getOrderedRoutes_loop_returns:
  assumes "priority_ranks pr = Inr rs"
  shows "n < 20 \<Longrightarrow> \<exists>res. getOrderedRoutes_loop pr n sp = Some (Inr res)"
proof (induction "nat (20 - n)" arbitrary: n sp rule: less_induct)
  case less
  have "map_of (AList.update n [] sp) n = Some []" by (simp add: update_conv')
  from getOrderedRoutes_scan_returns[OF assms this] obtain sp' where
    scan: "getOrderedRoutes_scan pr n (AList.update n [] sp) = Inr sp'" by blast
  show ?case
  proof (cases "n + 1 = 20")
    case True
    with scan show ?thesis by (subst getOrderedRoutes_loop.simps) simp
  next
    case False
    with less.prems have lt: "n + 1 < 20" by simp
    have "nat (20 - (n + 1)) < nat (20 - n)" using less.prems by simp
    from less.hyps[OF this lt, of sp'] obtain res where
      "getOrderedRoutes_loop pr (n + 1) sp' = Some (Inr res)" by blast
    with scan False show ?thesis by (subst getOrderedRoutes_loop.simps) simp
  qed
qed

text \<open>
  Claim C2, as amended. No priority table makes \<^verbatim>\<open>getOrderedRoutes\<close> loop: the
  \<^verbatim>\<open>while True\<close> loop counts \<open>priority_num\<close> from 1 and breaks at 20, so it ends after 19
  rounds on every input, with the buckets or with the exception of a malformed row.
  When every row has a rank that \<^verbatim>\<open>int()\<close> reads, whatever its value, the method
  returns the buckets of the ranks 1 to 19, and every route id in the bucket of rank \<open>k\<close>
  is the route id of a row whose rank is \<open>k\<close>: a row whose rank is outside \<open>[1, 19]\<close>
  matches no round and puts its route id in no bucket.
\<close>

theorem getOrderedRoutes_terminates:
  "(\<exists>res. getOrderedRoutes priority_routes = Some res) \<and>
   (\<forall>rs. priority_ranks priority_routes = Inr rs \<longrightarrow>
      (\<exists>single_priority. getOrderedRoutes priority_routes = Some (Inr single_priority) \<and>
         map fst single_priority = [1..19] \<and>
         (\<forall>k bucket route. (k, bucket) \<in> set single_priority \<and> route \<in> set bucket \<longrightarrow>
            1 \<le> k \<and> k \<le> 19 \<and>
            (\<exists>p\<in>set priority_routes. p ! 0 = route \<and> py_int (p ! 1) = Inr k))))"
proof (intro conjI allI impI)
  show "\<exists>res. getOrderedRoutes priority_routes = Some res"
    unfolding getOrderedRoutes_def by (rule getOrderedRoutes_loop_terminates) simp
next
  fix rs assume ranks: "priority_ranks priority_routes = Inr rs"
  from getOrderedRoutes_loop_returns[OF ranks, of 1 "[]"] obtain res where
    res: "getOrderedRoutes_loop priority_routes 1 [] = Some (Inr res)" by auto
  from getOrderedRoutes_loop_buckets[OF _ res] have
    keys: "map fst res = [1..19]" and
    ok: "\<forall>k bucket. 1 \<le> k \<and> map_of res k = Some bucket \<longrightarrow>
            distinct bucket \<and>
            set bucket \<subseteq> {p ! 0 | p. p \<in> set priority_routes \<and> 2 \<le> length p \<and>
                                  py_int (p ! 1) = Inr k}"
    by simp_all
  have dk: "distinct (map fst res)" using keys by simp
  have origin: "1 \<le> k \<and> k \<le> 19 \<and>
            (\<exists>p\<in>set priority_routes. p ! 0 = route \<and> py_int (p ! 1) = Inr k)"
    if a: "(k, bucket) \<in> set res \<and> route \<in> set bucket" for k bucket route
  proof -
    from a have "k \<in> set (map fst res)" by force
    then have k: "1 \<le> k" "k \<le> 19" using keys by simp_all
    have "map_of res k = Some bucket" using dk a by simp
    with ok k(1) have "set bucket \<subseteq> {p ! 0 | p. p \<in> set priority_routes \<and> 2 \<le> length p \<and>
                                  py_int (p ! 1) = Inr k}"
      by blast
    with a obtain p where "p \<in> set priority_routes" "route = p ! 0" "py_int (p ! 1) = Inr k"
      by blast
    with k show ?thesis by blast
  qed
  show "\<exists>single_priority. getOrderedRoutes priority_routes = Some (Inr single_priority) \<and>
         map fst single_priority = [1..19] \<and>
         (\<forall>k bucket route. (k, bucket) \<in> set single_priority \<and> route \<in> set bucket \<longrightarrow>
            1 \<le> k \<and> k \<le> 19 \<and>
            (\<exists>p\<in>set priority_routes. p ! 0 = route \<and> py_int (p ! 1) = Inr k))"
    using res keys origin by (intro exI[of _ res]) (simp add: getOrderedRoutes_def)
qed

theorem getOrderedRoutes_terminates_witness:
  "priority_ranks [[''10'', ''25''], [''11'', ''0'']] = Inr [25, 0] \<and>
   (\<exists>single_priority. getOrderedRoutes [[''10'', ''25''], [''11'', ''0'']] =
        Some (Inr single_priority) \<and> map fst single_priority = [1..19] \<and>
        \<not> (\<exists>k bucket route. (k, bucket) \<in> set single_priority \<and> route \<in> set bucket))"
proof -
  have ranks: "priority_ranks [[''10'', ''25''], [''11'', ''0'']] = Inr [25, 0]"
    by (simp add: py_index_def py_int_def strip_def is_space_def int_literal_def is_digit_def
          digit_val_def)
  have r25: "py_int ''25'' = Inr 25" and r0: "py_int ''0'' = Inr 0"
    by (simp_all add: py_int_def strip_def is_space_def int_literal_def is_digit_def
          digit_val_def)
  from getOrderedRoutes_terminates [of "[[''10'', ''25''], [''11'', ''0'']]"] ranks
  obtain single_priority where
    sp: "getOrderedRoutes [[''10'', ''25''], [''11'', ''0'']] = Some (Inr single_priority)"
        "map fst single_priority = [1..19]"
        "\<forall>k bucket route. (k, bucket) \<in> set single_priority \<and> route \<in> set bucket \<longrightarrow>
            1 \<le> k \<and> k \<le> 19 \<and>
            (\<exists>p\<in>set [[''10'', ''25''], [''11'', ''0'']]. p ! 0 = route \<and> py_int (p ! 1) = Inr k)"
    by blast
  have empty: "\<not> (\<exists>k bucket route. (k, bucket) \<in> set single_priority \<and> route \<in> set bucket)"
  proof
    assume "\<exists>k bucket route. (k, bucket) \<in> set single_priority \<and> route \<in> set bucket"
    then obtain k bucket route where "(k, bucket) \<in> set single_priority \<and> route \<in> set bucket"
      by blast
    with sp(3) have k: "1 \<le> k" "k \<le> 19"
      and "\<exists>p\<in>set [[''10'', ''25''], [''11'', ''0'']]. p ! 0 = route \<and> py_int (p ! 1) = Inr k"
      by blast+
    then have "k = 25 \<or> k = 0" using r25 r0 by auto
    with k show False by auto
  qed
  from ranks sp(1) sp(2) empty show ?thesis by blast
qed

text \<open>
  The claim as stated fails: a table with the rank 25, outside \<open>[1, 19]\<close>, returns
  nineteen empty buckets, and no table with such a rank makes the loop run forever.
\<close>

theorem getOrderedRoutes_terminates_counterexample:
  "getOrderedRoutes [[''10'', ''25'']] = Some (Inr (map (\<lambda>k. (k, [])) [1..19])) \<and>
   \<not> (\<exists>priority_routes :: row list.
        (\<exists>p r. p \<in> set priority_routes \<and> py_int (p ! 1) = Inr r \<and> (r < 1 \<or> 19 < r)) \<and>
        getOrderedRoutes priority_routes = None)"
proof
  show "getOrderedRoutes [[''10'', ''25'']] = Some (Inr (map (\<lambda>k. (k, [])) [1..19]))"
    by code_simp
next
  have "getOrderedRoutes pr \<noteq> None" for pr
    using getOrderedRoutes_loop_terminates[of 1 pr "[]"] by (auto simp: getOrderedRoutes_def)
  then show "\<not> (\<exists>priority_routes :: row list.
        (\<exists>p r. p \<in> set priority_routes \<and> py_int (p ! 1) = Inr r \<and> (r < 1 \<or> 19 < r)) \<and>
        getOrderedRoutes priority_routes = None)"
    by blast
qed

text \<open>
  Claim C8, as amended. For the entries \<open>[("10",1),("11",1),("12",3)]\<close> the method returns
  bucket 1 = \<open>["10","11"]\<close>, bucket 2 = \<open>[]\<close>, bucket 3 = \<open>["12"]\<close> and empty buckets 4 to 19.
  Whenever it returns buckets, the keys are exactly 1 to 19 in order and no bucket
  holds a route id twice. A route id lies in at most one bucket when the table gives no
  route id two different ranks; a table that lists a route id under two ranks has it
  in both buckets.
\<close>

theorem getOrderedRoutes_buckets:
  "getOrderedRoutes [[''10'', ''1''], [''11'', ''1''], [''12'', ''3'']] =
     Some (Inr ([(1, [''10'', ''11'']), (2, []), (3, [''12''])] @ map (\<lambda>k. (k, [])) [4..19])) \<and>
   (\<forall>single_priority. getOrderedRoutes priority_routes = Some (Inr single_priority) \<longrightarrow>
      map fst single_priority = [1..19] \<and>
      (\<forall>k bucket. (k, bucket) \<in> set single_priority \<longrightarrow> distinct bucket) \<and>
      ((\<forall>p\<in>set priority_routes. \<forall>q\<in>set priority_routes.
           p ! 0 = q ! 0 \<longrightarrow> py_int (p ! 1) = py_int (q ! 1)) \<longrightarrow>
       (\<forall>i j bi bj route. (i, bi) \<in> set single_priority \<and> (j, bj) \<in> set single_priority \<and>
           route \<in> set bi \<and> route \<in> set bj \<longrightarrow> i = j)))"
proof (intro conjI allI impI)
  show "getOrderedRoutes [[''10'', ''1''], [''11'', ''1''], [''12'', ''3'']] =
     Some (Inr ([(1, [''10'', ''11'']), (2, []), (3, [''12''])] @ map (\<lambda>k. (k, [])) [4..19]))"
    by code_simp
next
  fix single_priority
  assume "getOrderedRoutes priority_routes = Some (Inr single_priority)"
  then have run: "getOrderedRoutes_loop priority_routes 1 [] = Some (Inr single_priority)"
    by (simp add: getOrderedRoutes_def)
  from getOrderedRoutes_loop_buckets[OF _ run] have
    keys: "map fst single_priority = [1..19]" and
    ok: "\<forall>k bucket. 1 \<le> k \<and> map_of single_priority k = Some bucket \<longrightarrow>
            distinct bucket \<and>
            set bucket \<subseteq> {p ! 0 | p. p \<in> set priority_routes \<and> 2 \<le> length p \<and>
                                  py_int (p ! 1) = Inr k}"
    by simp_all
  have dk: "distinct (map fst single_priority)" using keys by simp
  have entry: "1 \<le> k \<and> map_of single_priority k = Some bucket"
    if "(k, bucket) \<in> set single_priority" for k bucket
  proof -
    from that have "k \<in> set (map fst single_priority)" by force
    then have "1 \<le> k" using keys by simp
    moreover have "map_of single_priority k = Some bucket" using dk that by simp
    ultimately show ?thesis by simp
  qed
  show "map fst single_priority = [1..19]" by (rule keys)
  {
    fix k bucket assume "(k, bucket) \<in> set single_priority"
    from entry[OF this] ok show "distinct bucket" by blast
  }
  {
    fix i j bi bj route
    assume one: "\<forall>p\<in>set priority_routes. \<forall>q\<in>set priority_routes.
           p ! 0 = q ! 0 \<longrightarrow> py_int (p ! 1) = py_int (q ! 1)"
      and a: "(i, bi) \<in> set single_priority \<and> (j, bj) \<in> set single_priority \<and>
           route \<in> set bi \<and> route \<in> set bj"
    from a entry ok obtain p where
      p: "route = p ! 0" "p \<in> set priority_routes" "py_int (p ! 1) = Inr i" by blast
    from a entry ok obtain q where
      q: "route = q ! 0" "q \<in> set priority_routes" "py_int (q ! 1) = Inr j" by blast
    from one p q have "py_int (p ! 1) = py_int (q ! 1)" by metis
    with p(3) q(3) show "i = j" by simp
  }
qed

theorem getOrderedRoutes_buckets_witness:
  "getOrderedRoutes [[''10'', ''1''], [''11'', ''1''], [''12'', ''3'']] =
     Some (Inr ([(1, [''10'', ''11'']), (2, []), (3, [''12''])] @ map (\<lambda>k. (k, [])) [4..19])) \<and>
   map fst ([(1, [''10'', ''11'']), (2, []), (3, [''12''])] @ map (\<lambda>k. (k, [])) [4..19]) = [1..19] \<and>
   \<not> (\<exists>i j bi bj route.
       (i, bi) \<in> set ([(1, [''10'', ''11'']), (2, []), (3, [''12''])] @ map (\<lambda>k. (k, [])) [4..19]) \<and>
       (j, bj) \<in> set ([(1, [''10'', ''11'']), (2, []), (3, [''12''])] @ map (\<lambda>k. (k, [])) [4..19]) \<and>
       route \<in> set bi \<and> route \<in> set bj \<and> i \<noteq> j)"
proof -
  let ?pr = "[[''10'', ''1''], [''11'', ''1''], [''12'', ''3'']]"
  let ?b = "[(1, [''10'', ''11'']), (2, []), (3, [''12''])] @ map (\<lambda>k. (k, [])) [4..19]"
  have one: "\<forall>p\<in>set ?pr. \<forall>q\<in>set ?pr. p ! 0 = q ! 0 \<longrightarrow> py_int (p ! 1) = py_int (q ! 1)"
    by simp
  from getOrderedRoutes_buckets [of ?pr] have run: "getOrderedRoutes ?pr = Some (Inr ?b)"
    by blast
  from getOrderedRoutes_buckets [of ?pr] run one show ?thesis by blast
qed

text \<open>
  The claim as stated fails on a table that lists route 10 under the ranks 1 and 2:
  the route id is in bucket 1 and in bucket 2.
\<close>

theorem getOrderedRoutes_buckets_counterexample:
  "getOrderedRoutes [[''10'', ''1''], [''10'', ''2'']] =
     Some (Inr ([(1, [''10'']), (2, [''10''])] @ map (\<lambda>k. (k, [])) [3..19]))"
  by code_simp

section \<open>Properties of the time arithmetic utility\<close>

lemma digit_char_props:
  assumes "d < 10"
  shows "is_digit (digit_char d)" "digit_val (digit_char d) = d" "digit_char d \<noteq> CHR '':''"
proof -
  have oc: "(of_char (digit_char d) :: nat) = 48 + d"
    using assms by (simp add: digit_char_def)
  show "is_digit (digit_char d)" using assms oc by (simp add: is_digit_def)
  show "digit_val (digit_char d) = d" using oc by (simp add: digit_val_def)
  show "digit_char d \<noteq> CHR '':''"
  proof
    assume "digit_char d = CHR '':''"
    then have "(of_char (digit_char d) :: nat) = of_char (CHR '':'')" by simp
    with oc have "48 + d = (58::nat)" by simp
    with assms show False by simp
  qed
qed

lemma digit_char_0: "digit_char 0 = CHR ''0''"
  by code_simp

lemma fmt_0d_2:
  assumes "n < 100"
  shows "fmt_0d 2 n = [digit_char (n div 10), digit_char (n mod 10)]"
proof (cases "n < 10")
  case True
  then have "str_nat n = [digit_char n]" by (subst str_nat.simps) simp
  with True show ?thesis by (simp add: fmt_0d_def digit_char_0)
next
  case False
  then have "n div 10 < 10" using assms by simp
  then have "str_nat (n div 10) = [digit_char (n div 10)]" by (subst str_nat.simps) simp
  with False have "str_nat n = [digit_char (n div 10), digit_char (n mod 10)]"
    by (subst str_nat.simps) simp
  then show ?thesis by (simp add: fmt_0d_def)
qed

lemma time_field_fmt:
  assumes "n < bound" "bound \<le> 100"
  shows "time_field (fmt_0d 2 n) bound = Some n"
proof -
  have n: "n < 100" using assms by simp
  then have d: "n div 10 < 10" "n mod 10 < 10" by simp_all
  show ?thesis
    using assms digit_char_props[OF d(1)] digit_char_props[OF d(2)]
    by (simp add: fmt_0d_2[OF n])
qed

lemma split_at_no_sep: "sep \<notin> set f \<Longrightarrow> split_at sep f = [f]"
  by (induction f) auto

lemma split_at_field:
  "sep \<notin> set f \<Longrightarrow> split_at sep (f @ sep # rest) = f # split_at sep rest"
  by (induction f) auto

lemma fmt_0d_2_no_colon: "n < 100 \<Longrightarrow> CHR '':'' \<notin> set (fmt_0d 2 n)"
proof -
  assume n: "n < 100"
  then have d: "n div 10 < 10" "n mod 10 < 10" by simp_all
  show ?thesis
    using digit_char_props(3)[OF d(1)] digit_char_props(3)[OF d(2)]
    by (auto simp: fmt_0d_2[OF n])
qed

lemma strptime_str_time:
  assumes "t < 86400"
  shows "strptime_HMS (str_time t) = Inr (693595 * 86400 + int t)"
proof -
  let ?h = "t div 3600" and ?m = "t div 60 mod 60" and ?s = "t mod 60"
  have b: "?h < 24" "?m < 60" "?s < 60" using assms by simp_all
  then have b100: "?h < 100" "?m < 100" "?s < 100" by simp_all
  have sp: "split_at (CHR '':'') (str_time t) = [fmt_0d 2 ?h, fmt_0d 2 ?m, fmt_0d 2 ?s]"
    using fmt_0d_2_no_colon[OF b100(1)] fmt_0d_2_no_colon[OF b100(2)]
      fmt_0d_2_no_colon[OF b100(3)]
    by (simp add: str_time_def split_at_field split_at_no_sep)
  have tf: "time_field (fmt_0d 2 ?h) 24 = Some ?h" "time_field (fmt_0d 2 ?m) 60 = Some ?m"
    "time_field (fmt_0d 2 ?s) 60 = Some ?s"
    using b by (simp_all add: time_field_fmt)
  have "?h * 3600 + ?m * 60 + ?s = t"
  proof -
    have a: "t = (t div 60) * 60 + t mod 60" by simp
    have c: "t div 60 = (t div 3600) * 60 + t div 60 mod 60"
      using div_mult_mod_eq[of "t div 60" 60] by (simp add: div_mult2_eq[symmetric])
    have "(t div 60) * 60 = (t div 3600) * 3600 + (t div 60 mod 60) * 60"
      by (subst c) (simp add: algebra_simps)
    with a show ?thesis by linarith
  qed
  then show ?thesis using sp tf by (simp add: strptime_HMS_def)
qed

lemma update_append_fresh:
  "k \<notin> fst ` set pre \<Longrightarrow>
   AList.update k v (pre @ (k, w) # rest) = pre @ (k, v) # rest"
  by (induction pre) auto

lemma map_of_append_fresh:
  "k \<notin> fst ` set pre \<Longrightarrow> map_of (pre @ (k, w) # rest) k = Some w"
  by (induction pre) auto

lemma shiftTripTime_stops_shift:
  assumes "distinct (map fst pre @ map fst kts)"
    and "\<forall>(k, t)\<in>set kts. t < 86400"
    and "- 86400 \<le> d" "d \<le> 86400"
  shows "shiftTripTime_stops (map fst kts) d (pre @ map (\<lambda>(k, t). (k, str_time t)) kts) =
           (Inr (), pre @ map (\<lambda>(k, t). (k, str_time (nat ((int t + d) mod 86400)))) kts)"
  using assms(1,2)
proof (induction kts arbitrary: pre)
  case Nil
  then show ?case by simp
next
  case (Cons kt kts)
  obtain k t where kt: "kt = (k, t)" by (cases kt)
  let ?enc = "map (\<lambda>(k, t). (k, str_time t)) kts"
  have fresh: "k \<notin> fst ` set pre" using Cons.prems(1) kt by auto
  have t: "t < 86400" using Cons.prems(2) kt by simp
  have get: "dict_get (pre @ (k, str_time t) # ?enc) k = Inr (str_time t)"
    using map_of_append_fresh[OF fresh] by (simp add: dict_get_def)
  have td: "timedelta_seconds d = Inr d"
  proof -
    have "- 1 \<le> d div 86400" using assms(3) zdiv_mono1[of "- 86400" d 86400] by simp
    moreover have "d div 86400 \<le> 1" using assms(4) zdiv_mono1[of d 86400 86400] by simp
    ultimately show ?thesis by (simp add: timedelta_seconds_def)
  qed
  have add: "datetime_add (693595 * 86400 + int t) d = Inr (693595 * 86400 + int t + d)"
    using assms(3,4) t by (simp add: datetime_add_def)
  have tod: "time_of (693595 * 86400 + int t + d) = nat ((int t + d) mod 86400)"
  proof -
    have "693595 * 86400 + int t + d = int t + d + 693595 * 86400" by simp
    then have "(693595 * 86400 + int t + d) mod 86400 = (int t + d + 693595 * 86400) mod 86400"
      by (rule arg_cong)
    also have "\<dots> = (int t + d) mod 86400" by (rule mod_mult_self1)
    finally show ?thesis by (simp only: time_of_def)
  qed
  let ?v = "str_time (nat ((int t + d) mod 86400))"
  have step: "shiftTripTime_stops (map fst (kt # kts)) d
                (pre @ map (\<lambda>(k, t). (k, str_time t)) (kt # kts)) =
              shiftTripTime_stops (map fst kts) d ((pre @ [(k, ?v)]) @ ?enc)"
    using get strptime_str_time[OF t] td add tod update_append_fresh[OF fresh]
    by (simp add: kt)
  have d1: "distinct (map fst (pre @ [(k, ?v)]) @ map fst kts)"
    using Cons.prems(1) kt by auto
  have d2: "\<forall>(k, t)\<in>set kts. t < 86400" using Cons.prems(2) by simp
  show ?case
    unfolding step using Cons.IH[OF d1 d2] by (simp add: kt)
qed

lemma valid_times_decode:
  "\<forall>(stop, tm)\<in>set trip. \<exists>t<86400. tm = str_time t \<Longrightarrow>
   \<exists>kts. trip = map (\<lambda>(k, t). (k, str_time t)) kts \<and> (\<forall>(k, t)\<in>set kts. t < (86400::nat))"
proof (induction trip)
  case Nil
  then show ?case by simp
next
  case (Cons a trip)
  obtain k v where a: "a = (k, v)" by (cases a)
  from Cons.prems a obtain t where t: "t < 86400" "v = str_time t" by auto
  from Cons obtain kts where
    kts: "trip = map (\<lambda>(k, t). (k, str_time t)) kts" "\<forall>(k, t)\<in>set kts. t < 86400"
    by auto
  show ?case
    by (rule exI[of _ "(k, t) # kts"]) (use a t kts in simp)
qed

lemma shift_back: "t < 86400 \<Longrightarrow> nat (((int t + 90) mod 86400 - 90) mod 86400) = t"
proof -
  assume t: "t < 86400"
  have "((int t + 90) mod 86400 - 90) mod 86400 = (int t + 90 - 90) mod 86400"
    by (rule mod_diff_left_eq)
  also have "\<dots> = int t" using t by simp
  finally show ?thesis by simp
qed

lemma map_fst_map_snd:
  "map fst (map (\<lambda>(k, t). (k, f t)) xs) = map fst xs"
  by (induction xs) auto

lemma shift_back_all:
  "\<forall>(k, t)\<in>set kts. t < 86400 \<Longrightarrow>
   map (\<lambda>(k, t). (k, str_time (nat ((int t + - 90) mod 86400))))
     (map (\<lambda>(k, t). (k, nat ((int t + 90) mod 86400))) kts) =
   map (\<lambda>(k, t). (k, str_time t)) kts"
  by (induction kts) (auto simp: shift_back)

lemma shift_in_day:
  "\<forall>(k, t)\<in>set (map (\<lambda>(k, t). (k, nat ((int t + d) mod 86400))) kts). t < 86400"
  by (induction kts) (auto simp: nat_less_iff)

lemma shiftTripTime_encoded:
  assumes "distinct (map fst kts)" "\<forall>(k, t)\<in>set kts. t < 86400" "- 86400 \<le> d" "d \<le> 86400"
  shows "shiftTripTime (map (\<lambda>(k, t). (k, str_time t)) kts) d =
           (Inr (map (\<lambda>(k, t). (k, str_time (nat ((int t + d) mod 86400)))) kts),
            map (\<lambda>(k, t). (k, str_time (nat ((int t + d) mod 86400)))) kts)"
proof -
  have dk: "distinct (map fst [] @ map fst kts)" using assms(1) by simp
  have "shiftTripTime_stops (map fst kts) d ([] @ map (\<lambda>(k, t). (k, str_time t)) kts) =
      (Inr (), [] @ map (\<lambda>(k, t). (k, str_time (nat ((int t + d) mod 86400)))) kts)"
    by (rule shiftTripTime_stops_shift[OF dk assms(2) assms(3) assms(4)])
  then have "shiftTripTime_stops (map fst (map (\<lambda>(k, t). (k, str_time t)) kts)) d
        (map (\<lambda>(k, t). (k, str_time t)) kts) =
      (Inr (), map (\<lambda>(k, t). (k, str_time (nat ((int t + d) mod 86400)))) kts)"
    by (simp only: map_fst_map_snd append_Nil)
  then show ?thesis by (simp only: shiftTripTime_def prod.case sum.case)
qed

lemma digit_char_numerals:
  "digit_char 0 = CHR ''0''" "digit_char 1 = CHR ''1''" "digit_char 2 = CHR ''2''"
  "digit_char 3 = CHR ''3''" "digit_char 4 = CHR ''4''" "digit_char 5 = CHR ''5''"
  "digit_char 6 = CHR ''6''" "digit_char 7 = CHR ''7''" "digit_char 8 = CHR ''8''"
  "digit_char 9 = CHR ''9''" "digit_char (Suc 0) = CHR ''1''"
  by code_simp+

text \<open>
  Claim C6. For every trip, a dict with distinct stop ids whose values are time strings
  \<^verbatim>\<open>HH:MM:SS\<close> as the scheduler writes them (\<open>str_time t\<close> for a second of the day \<open>t\<close>),
  \<^verbatim>\<open>shiftTripTime(trip, 90)\<close> returns a trip and \<^verbatim>\<open>shiftTripTime\<close> of that trip with
  \<open>-90\<close> returns the original trip exactly, stop for stop in the same order. Times that
  cross midnight are covered: \<open>t\<close> ranges over the whole day, and the shifted second of the
  day is taken modulo 86400.
\<close>

theorem shiftTripTime_round_trip:
  assumes "distinct (map fst trip)"
    and "\<forall>(stop, tm)\<in>set trip. \<exists>t<86400. tm = str_time t"
  shows "\<exists>shifted. shiftTripTime trip 90 = (Inr shifted, shifted) \<and>
           shiftTripTime shifted (- 90) = (Inr trip, trip)"
proof -
  from valid_times_decode[OF assms(2)] obtain kts where
    kts: "trip = map (\<lambda>(k, t). (k, str_time t)) kts" "\<forall>(k, t)\<in>set kts. t < 86400"
    by blast
  define kts' where "kts' = map (\<lambda>(k, t). (k, nat ((int t + 90) mod 86400))) kts"
  have keys: "map fst trip = map fst kts" unfolding kts(1) by (rule map_fst_map_snd)
  have keys': "map fst kts' = map fst kts" unfolding kts'_def by (rule map_fst_map_snd)
  have dk: "distinct (map fst kts)" using assms(1) keys by simp
  have dk': "distinct (map fst kts')" using dk keys' by simp
  have v': "\<forall>(k, t)\<in>set kts'. t < 86400" unfolding kts'_def by (rule shift_in_day)
  have sh: "map (\<lambda>(k, t). (k, str_time (nat ((int t + 90) mod 86400)))) kts =
            map (\<lambda>(k, t). (k, str_time t)) kts'"
    unfolding kts'_def by (induction kts) auto
  have same: "map (\<lambda>(k, t). (k, str_time (nat ((int t + - 90) mod 86400)))) kts' = trip"
    unfolding kts'_def kts(1) by (rule shift_back_all[OF kts(2)])
  have r1: "shiftTripTime trip 90 =
      (Inr (map (\<lambda>(k, t). (k, str_time t)) kts'), map (\<lambda>(k, t). (k, str_time t)) kts')"
    unfolding kts(1) sh[symmetric] by (rule shiftTripTime_encoded[OF dk kts(2)]) simp_all
  have "shiftTripTime (map (\<lambda>(k, t). (k, str_time t)) kts') (- 90) =
      (Inr (map (\<lambda>(k, t). (k, str_time (nat ((int t + - 90) mod 86400)))) kts'),
       map (\<lambda>(k, t). (k, str_time (nat ((int t + - 90) mod 86400)))) kts')"
    by (rule shiftTripTime_encoded[OF dk' v']) simp_all
  then have r2: "shiftTripTime (map (\<lambda>(k, t). (k, str_time t)) kts') (- 90) = (Inr trip, trip)"
    by (simp only: same)
  from r1 r2 show ?thesis by blast
qed

theorem shiftTripTime_round_trip_witness:
  "\<exists>shifted. shiftTripTime [(''A'', ''23:59:30''), (''B'', ''00:00:10'')] 90 = (Inr shifted, shifted) \<and>
     shiftTripTime shifted (- 90) =
       (Inr [(''A'', ''23:59:30''), (''B'', ''00:00:10'')],
        [(''A'', ''23:59:30''), (''B'', ''00:00:10'')])"
proof -
  have a: "''23:59:30'' = str_time 86370"
    by (simp add: str_time_def fmt_0d_2 digit_char_numerals)
  have b: "''00:00:10'' = str_time 10"
    by (simp add: str_time_def fmt_0d_2 digit_char_numerals)
  have d: "distinct (map fst [(''A'', ''23:59:30''), (''B'', ''00:00:10'')])" by simp
  have v: "\<forall>(stop, tm)\<in>set [(''A'', ''23:59:30''), (''B'', ''00:00:10'')].
             \<exists>t<86400. tm = str_time t"
  proof -
    have "\<exists>t<86400. ''23:59:30'' = str_time t" using a by (intro exI[of _ 86370]) simp
    moreover have "\<exists>t<86400. ''00:00:10'' = str_time t" using b by (intro exI[of _ 10]) simp
    ultimately show ?thesis by simp
  qed
  show ?thesis by (rule shiftTripTime_round_trip [OF d v])
qed

section \<open>Properties of the trip generator\<close>

lemma update_snoc_fresh: "k \<notin> fst ` set al \<Longrightarrow> AList.update k v al = al @ [(k, v)]"
  by (induction al) auto

lemma dict_get_update_same: "dict_get (AList.update k v al) k = Inr v"
  by (simp add: dict_get_def update_conv')

lemma generateTrip_stops_run:
  assumes "dict_get (routes_schedules s) route = Inr schedule"
    and "dict_get schedule trip_id = Inr pre"
    and "distinct (map fst pre @ map fst stops)"
    and "map (\<lambda>st. py_int (snd st)) stops = map Inr tts"
    and "\<forall>tt\<in>set tts. 0 \<le> tt"
    and "0 \<le> t0" "t0 + sum_list tts < 86400"
  shows "\<exists>s' schedule' times.
           generateTrip_stops stops route trip_id (730119 * 86400 + t0) s = (Inr (), s') \<and>
           dict_get (routes_schedules s') route = Inr schedule' \<and>
           dict_get schedule' trip_id = Inr (pre @ zip (map fst stops) (map str_time times)) \<and>
           length times = length stops \<and> sorted times \<and>
           (\<forall>x\<in>set times. t0 \<le> int x \<and> int x \<le> t0 + sum_list tts) \<and>
           (times \<noteq> [] \<longrightarrow> int (last times) = t0 + sum_list tts \<and> int (hd times) = t0 + hd tts)"
  using assms
proof (induction stops arbitrary: s schedule pre tts t0)
  case Nil
  then show ?case by (intro exI[of _ s] exI[of _ schedule] exI[of _ "[]"]) simp
next
  case (Cons st stops)
  from Cons.prems(4) obtain tt tts' where
    tts: "tts = tt # tts'" "py_int (snd st) = Inr tt"
         "map (\<lambda>st. py_int (snd st)) stops = map Inr tts'"
    by (cases tts) auto
  have tt0: "0 \<le> tt" and rest0: "\<forall>x\<in>set tts'. 0 \<le> x" using Cons.prems(5) tts(1) by simp_all
  have sum0: "0 \<le> sum_list tts'" using rest0 by (simp add: sum_list_nonneg)
  let ?t1 = "t0 + tt"
  have small: "?t1 < 86400" "0 \<le> ?t1" using Cons.prems(6,7) tts(1) tt0 sum0 by simp_all
  have td: "timedelta_seconds tt = Inr tt"
    using tt0 small Cons.prems(6) by (simp add: timedelta_seconds_def)
  have da: "datetime_add (730119 * 86400 + t0) tt = Inr (730119 * 86400 + ?t1)"
    using small by (simp add: datetime_add_def)
  have tod: "time_of (730119 * 86400 + ?t1) = nat ?t1"
  proof -
    have "(730119 * 86400 + ?t1) mod 86400 = (?t1 + 730119 * 86400) mod 86400"
      by (simp only: add.commute)
    also have "\<dots> = ?t1 mod 86400" by (rule mod_mult_self1)
    also have "\<dots> = ?t1" using small by simp
    finally show ?thesis by (simp only: time_of_def)
  qed
  have fresh: "fst st \<notin> fst ` set pre" using Cons.prems(3) by auto
  let ?pre1 = "pre @ [(fst st, str_time (nat ?t1))]"
  let ?schedule1 = "AList.update trip_id ?pre1 schedule"
  let ?s1 = "s\<lparr>routes_schedules := AList.update route ?schedule1 (routes_schedules s)\<rparr>"
  have step: "generateTrip_stops (st # stops) route trip_id (730119 * 86400 + t0) s =
              generateTrip_stops stops route trip_id (730119 * 86400 + ?t1) ?s1"
    using tts(2) td da tod Cons.prems(1,2) update_snoc_fresh[OF fresh] by simp
  have g1: "dict_get (routes_schedules ?s1) route = Inr ?schedule1"
    by (simp add: dict_get_update_same)
  have g2: "dict_get ?schedule1 trip_id = Inr ?pre1" by (rule dict_get_update_same)
  have d1: "distinct (map fst ?pre1 @ map fst stops)" using Cons.prems(3) by auto
  have lim: "?t1 + sum_list tts' < 86400" using Cons.prems(7) tts(1) by simp
  from Cons.IH[OF g1 g2 d1 tts(3) rest0 small(2) lim] obtain s' schedule' times where
    ih: "generateTrip_stops stops route trip_id (730119 * 86400 + ?t1) ?s1 = (Inr (), s')"
        "dict_get (routes_schedules s') route = Inr schedule'"
        "dict_get schedule' trip_id = Inr (?pre1 @ zip (map fst stops) (map str_time times))"
        "length times = length stops" "sorted times"
        "\<forall>x\<in>set times. ?t1 \<le> int x \<and> int x \<le> ?t1 + sum_list tts'"
        "times \<noteq> [] \<longrightarrow> int (last times) = ?t1 + sum_list tts' \<and> int (hd times) = ?t1 + hd tts'"
    by blast
  let ?times = "nat ?t1 # times"
  have c3: "dict_get schedule' trip_id =
              Inr (pre @ zip (map fst (st # stops)) (map str_time ?times))"
    using ih(3) by simp
  have c5: "sorted ?times" using ih(5,6) small(2) by auto
  have c6: "\<forall>x\<in>set ?times. t0 \<le> int x \<and> int x \<le> t0 + sum_list tts"
    using ih(6) small(2) tt0 sum0 tts(1) by auto
  have c7: "int (last ?times) = t0 + sum_list tts \<and> int (hd ?times) = t0 + hd tts"
  proof (cases "times = []")
    case True
    with ih(4) tts(3) have "tts' = []" by (metis length_0_conv length_map)
    with True small(2) tts(1) show ?thesis by simp
  next
    case False
    with ih(7) small(2) tts(1) show ?thesis by simp
  qed
  show ?case
    apply (intro exI[of _ s'] exI[of _ schedule'] exI[of _ ?times])
    using step ih(1,2,4) c3 c5 c6 c7 by simp
qed

lemma py_int_numerals:
  "py_int ''0'' = Inr 0" "py_int ''120'' = Inr 120" "py_int ''90'' = Inr 90"
  "py_int ''3600'' = Inr 3600" "py_int ''60'' = Inr 60" "py_int ''30'' = Inr 30"
  by (simp_all add: py_int_def strip_def is_space_def int_literal_def is_digit_def digit_val_def)

text \<open>
  Claim C5, as amended. The claim as stated fails for a trip that runs past midnight (the
  recorded times are times of day, so they drop back to \<^verbatim>\<open>00:..\<close>) and for a route that
  lists a stop id twice (the dict keeps the first position of the key and the last time).
  For a route whose stop ids are distinct and whose travel times are non-negative
  integers, and a trip that ends before midnight (start second of the day plus all travel
  times below 86400), \<^verbatim>\<open>generateTrip\<close> returns and records, in stop order, times of day
  that are non-decreasing, the last one being the first one plus the travel times of
  the stops after the first.
\<close>

theorem generateTrip_times:
  assumes "dict_get (routes_schedules s) current_route = Inr schedule"
    and "dict_get (routes_stops s) current_route = Inr stops"
    and "distinct (map fst stops)"
    and "map (\<lambda>route_stop. py_int (snd route_stop)) stops = map Inr tts"
    and "\<forall>tt\<in>set tts. 0 \<le> tt"
    and "0 \<le> current_hour" "current_hour \<le> 23" "0 \<le> trip_minute" "trip_minute \<le> 59"
    and "current_hour * 3600 + trip_minute * 60 + sum_list tts < 86400"
  shows "\<exists>s' schedule' times.
           generateTrip current_route trip_id current_hour trip_minute s = (Inr (), s') \<and>
           dict_get (routes_schedules s') current_route = Inr schedule' \<and>
           dict_get schedule' trip_id = Inr (zip (map fst stops) (map str_time times)) \<and>
           length times = length stops \<and> sorted times \<and> (\<forall>x\<in>set times. x < 86400) \<and>
           (times \<noteq> [] \<longrightarrow> int (last times) = int (hd times) + sum_list (tl tts))"
proof -
  let ?t0 = "current_hour * 3600 + trip_minute * 60"
  let ?schedule1 = "AList.update trip_id [] schedule"
  let ?s1 = "s\<lparr>routes_schedules := AList.update current_route ?schedule1 (routes_schedules s)\<rparr>"
  have dt: "datetime_2000_01_01 current_hour trip_minute = Inr (730119 * 86400 + ?t0)"
    using assms(6-9) by (simp add: datetime_2000_01_01_def)
  have g1: "dict_get (routes_schedules ?s1) current_route = Inr ?schedule1"
    by (simp add: dict_get_update_same)
  have g2: "dict_get ?schedule1 trip_id = Inr []" by (rule dict_get_update_same)
  have d: "distinct (map fst [] @ map fst stops)" using assms(3) by simp
  have t0: "0 \<le> ?t0" using assms(6,8) by simp
  from generateTrip_stops_run[OF g1 g2 d assms(4) assms(5) t0 assms(10)]
  obtain s' schedule' times where
    r: "generateTrip_stops stops current_route trip_id (730119 * 86400 + ?t0) ?s1 = (Inr (), s')"
       "dict_get (routes_schedules s') current_route = Inr schedule'"
       "dict_get schedule' trip_id = Inr ([] @ zip (map fst stops) (map str_time times))"
       "length times = length stops" "sorted times"
       "\<forall>x\<in>set times. ?t0 \<le> int x \<and> int x \<le> ?t0 + sum_list tts"
       "times \<noteq> [] \<longrightarrow> int (last times) = ?t0 + sum_list tts \<and> int (hd times) = ?t0 + hd tts"
    by blast
  have run: "generateTrip current_route trip_id current_hour trip_minute s = (Inr (), s')"
    using assms(1,2) dt r(1) by (simp add: generateTrip_def)
  have lt: "\<forall>x\<in>set times. x < 86400" using r(6) assms(10) by auto
  have fin: "times \<noteq> [] \<longrightarrow> int (last times) = int (hd times) + sum_list (tl tts)"
  proof
    assume ne: "times \<noteq> []"
    with r(4) assms(4) have "tts \<noteq> []" by (metis length_0_conv length_map)
    then have "sum_list tts = hd tts + sum_list (tl tts)" by (cases tts) simp_all
    with r(7) ne show "int (last times) = int (hd times) + sum_list (tl tts)" by simp
  qed
  from run r(2) r(3) r(4) r(5) lt fin show ?thesis by (intro exI[of _ s'] exI[of _ schedule'] exI[of _ times]) simp
qed

theorem generateTrip_times_witness:
  "\<exists>s' schedule' times.
     generateTrip ''27'' ''270001'' 3 0
       \<lparr>routes = [], nodes = [], frequency = [], priority = [],
         routes_stops = [(''27'', [(''A'', ''0''), (''B'', ''120''), (''C'', ''90'')])],
         routes_schedules = [(''27'', [])], routes_order = [], stdout = []\<rparr> = (Inr (), s') \<and>
     dict_get (routes_schedules s') ''27'' = Inr schedule' \<and>
     dict_get schedule' ''270001'' =
       Inr (zip (map fst [(''A'', ''0''), (''B'', ''120''), (''C'', ''90'')]) (map str_time times)) \<and>
     length times = length [(''A'', ''0''), (''B'', ''120''), (''C'', ''90'')] \<and>
     sorted times \<and> (\<forall>x\<in>set times. x < 86400) \<and>
     (times \<noteq> [] \<longrightarrow> int (last times) = int (hd times) + sum_list (tl [0, 120, 90]))"
proof -
  let ?s = "\<lparr>routes = [], nodes = [], frequency = [], priority = [],
         routes_stops = [(''27'', [(''A'', ''0''), (''B'', ''120''), (''C'', ''90'')])],
         routes_schedules = [(''27'', [])], routes_order = [], stdout = []\<rparr>"
  have h1: "dict_get (routes_schedules ?s) ''27'' = Inr []" by (simp add: dict_get_def)
  have h2: "dict_get (routes_stops ?s) ''27'' = Inr [(''A'', ''0''), (''B'', ''120''), (''C'', ''90'')]"
    by (simp add: dict_get_def)
  have h3: "distinct (map fst [(''A'', ''0''), (''B'', ''120''), (''C'', ''90'')])" by simp
  have h4: "map (\<lambda>route_stop. py_int (snd route_stop)) [(''A'', ''0''), (''B'', ''120''), (''C'', ''90'')] =
              map Inr [0, 120, 90]"
    by (simp add: py_int_numerals)
  have h5: "\<forall>tt\<in>set [0, 120, 90 :: int]. 0 \<le> tt" by simp
  have h10: "(3::int) * 3600 + 0 * 60 + sum_list [0, 120, 90] < 86400" by simp
  show ?thesis
    by (rule generateTrip_times [OF h1 h2 h3 h4 h5 _ _ _ _ h10]) simp_all
qed

text \<open>
  Two trips on which the claim as stated fails: a trip from 23:30 whose second stop is an
  hour away is recorded as 23:30:00 followed by 00:30:00; a trip over the stops A, B, A
  is recorded as A = 03:02:00 followed by B = 03:01:00.
\<close>

theorem generateTrip_times_counterexample:
  "routes_schedules (snd (generateTrip ''27'' ''270001'' 23 30
      \<lparr>routes = [], nodes = [], frequency = [], priority = [],
        routes_stops = [(''27'', [(''A'', ''0''), (''B'', ''3600'')])],
        routes_schedules = [(''27'', [])], routes_order = [], stdout = []\<rparr>)) =
     [(''27'', [(''270001'', [(''A'', str_time 84600), (''B'', str_time 1800)])])] \<and>
   str_time 84600 = ''23:30:00'' \<and> str_time 1800 = ''00:30:00'' \<and>
   routes_schedules (snd (generateTrip ''27'' ''270001'' 3 0
      \<lparr>routes = [], nodes = [], frequency = [], priority = [],
        routes_stops = [(''27'', [(''A'', ''0''), (''B'', ''60''), (''A'', ''60'')])],
        routes_schedules = [(''27'', [])], routes_order = [], stdout = []\<rparr>)) =
     [(''27'', [(''270001'', [(''A'', str_time 10920), (''B'', str_time 10860)])])] \<and>
   str_time 10920 = ''03:02:00'' \<and> str_time 10860 = ''03:01:00''"
proof -
  have a: "routes_schedules (snd (generateTrip ''27'' ''270001'' 23 30
      \<lparr>routes = [], nodes = [], frequency = [], priority = [],
        routes_stops = [(''27'', [(''A'', ''0''), (''B'', ''3600'')])],
        routes_schedules = [(''27'', [])], routes_order = [], stdout = []\<rparr>)) =
     [(''27'', [(''270001'', [(''A'', str_time 84600), (''B'', str_time 1800)])])]"
    by (simp add: generateTrip_def dict_get_def datetime_2000_01_01_def py_int_numerals
          timedelta_seconds_def datetime_add_def time_of_def)
  have b: "routes_schedules (snd (generateTrip ''27'' ''270001'' 3 0
      \<lparr>routes = [], nodes = [], frequency = [], priority = [],
        routes_stops = [(''27'', [(''A'', ''0''), (''B'', ''60''), (''A'', ''60'')])],
        routes_schedules = [(''27'', [])], routes_order = [], stdout = []\<rparr>)) =
     [(''27'', [(''270001'', [(''A'', str_time 10920), (''B'', str_time 10860)])])]"
    by (simp add: generateTrip_def dict_get_def datetime_2000_01_01_def py_int_numerals
          timedelta_seconds_def datetime_add_def time_of_def)
  have c: "str_time 84600 = ''23:30:00''" "str_time 1800 = ''00:30:00''"
    "str_time 10920 = ''03:02:00''" "str_time 10860 = ''03:01:00''"
    by (simp_all add: str_time_def fmt_0d_2 digit_char_numerals)
  from a b c show ?thesis by simp
qed

section \<open>Properties of the route schedule\<close>

lemma digits_value_str_nat:
  "foldl (\<lambda>a c. 10 * a + digit_val c) 0 (str_nat n) = n"
proof (induction n rule: str_nat.induct)
  case (1 n)
  show ?case
  proof (cases "n < 10")
    case True
    then have "str_nat n = [digit_char n]" by (subst str_nat.simps) simp
    with True show ?thesis by (simp add: digit_char_props)
  next
    case False
    then have "n mod 10 < 10" by simp
    have "str_nat n = str_nat (n div 10) @ [digit_char (n mod 10)]"
      using False by (subst str_nat.simps) simp
    with 1[OF False] show ?thesis by (simp add: digit_char_props)
  qed
qed

lemma digits_value_zeros:
  "foldl (\<lambda>a c. 10 * a + digit_val c) 0 (replicate k (CHR ''0'') @ ds) =
   foldl (\<lambda>a c. 10 * a + digit_val c) 0 ds"
proof -
  have z: "digit_val (CHR ''0'') = 0" by (simp add: digit_val_def)
  have "foldl (\<lambda>a c. 10 * a + digit_val c) 0 (replicate k (CHR ''0'')) = 0"
    by (induction k) (simp_all add: z)
  then show ?thesis by simp
qed

lemma fmt_0d_inj: "fmt_0d w a = fmt_0d w b \<Longrightarrow> a = b"
proof -
  assume eq: "fmt_0d w a = fmt_0d w b"
  have "foldl (\<lambda>a c. 10 * a + digit_val c) 0 (fmt_0d w n) = n" for n
    unfolding fmt_0d_def by (simp only: digits_value_zeros digits_value_str_nat)
  then show "a = b" using eq by metis
qed



lemma str_nat_nonempty: "str_nat n \<noteq> []"
  by (subst str_nat.simps) simp


lemma generateTrip_stops_entry:
  assumes "dict_get (routes_schedules s) route = Inr schedule"
    and "dict_get schedule tid = Inr trip0"
  shows "\<exists>trip. routes_schedules (snd (generateTrip_stops stops route tid t s)) =
           AList.update route (AList.update tid trip schedule) (routes_schedules s)"
  using assms
proof (induction stops arbitrary: s schedule trip0 t)
  case Nil
  have m1: "map_of (routes_schedules s) route = Some schedule"
    using Nil(1) by (simp add: dict_get_def split: option.splits)
  have m2: "map_of schedule tid = Some trip0"
    using Nil(2) by (simp add: dict_get_def split: option.splits)
  have "AList.update route (AList.update tid trip0 schedule) (routes_schedules s) =
        routes_schedules s"
    using m1 m2 by (simp add: update_triv)
  then show ?case by (intro exI[of _ trip0]) simp
next
  case (Cons st stops)
  have m1: "map_of (routes_schedules s) route = Some schedule"
    using Cons.prems(1) by (simp add: dict_get_def split: option.splits)
  have m2: "map_of schedule tid = Some trip0"
    using Cons.prems(2) by (simp add: dict_get_def split: option.splits)
  have same: "AList.update route (AList.update tid trip0 schedule) (routes_schedules s) =
        routes_schedules s"
    using m1 m2 by (simp add: update_triv)
  show ?case
  proof (cases "\<exists>sec delta t'. py_int (snd st) = Inr sec \<and> timedelta_seconds sec = Inr delta \<and>
                  datetime_add t delta = Inr t'")
    case False
    then have "snd (generateTrip_stops (st # stops) route tid t s) = s"
      by (auto split: sum.splits)
    with same show ?thesis by (intro exI[of _ trip0]) simp
  next
    case True
    then obtain sec delta t' where
      ok: "py_int (snd st) = Inr sec" "timedelta_seconds sec = Inr delta"
          "datetime_add t delta = Inr t'"
      by blast
    let ?trip1 = "AList.update (fst st) (str_time (time_of t')) trip0"
    let ?schedule1 = "AList.update tid ?trip1 schedule"
    let ?s1 = "s\<lparr>routes_schedules := AList.update route ?schedule1 (routes_schedules s)\<rparr>"
    have step: "generateTrip_stops (st # stops) route tid t s =
                generateTrip_stops stops route tid t' ?s1"
      using ok Cons.prems by simp
    have g1: "dict_get (routes_schedules ?s1) route = Inr ?schedule1"
      by (simp add: dict_get_update_same)
    have g2: "dict_get ?schedule1 tid = Inr ?trip1" by (rule dict_get_update_same)
    from Cons.IH[OF g1 g2, of t'] obtain trip where
      "routes_schedules (snd (generateTrip_stops stops route tid t' ?s1)) =
         AList.update route (AList.update tid trip ?schedule1) (routes_schedules ?s1)"
      by blast
    then have "routes_schedules (snd (generateTrip_stops (st # stops) route tid t s)) =
         AList.update route (AList.update tid trip schedule) (routes_schedules s)"
      unfolding step by simp
    then show ?thesis by blast
  qed
qed

lemma generateTrip_entry:
  assumes "dict_get (routes_schedules s) route = Inr schedule"
  shows "\<exists>trip. routes_schedules (snd (generateTrip route tid h m s)) =
           AList.update route (AList.update tid trip schedule) (routes_schedules s)"
proof -
  let ?schedule1 = "AList.update tid [] schedule"
  let ?s1 = "s\<lparr>routes_schedules := AList.update route ?schedule1 (routes_schedules s)\<rparr>"
  have g1: "dict_get (routes_schedules ?s1) route = Inr ?schedule1"
    by (simp add: dict_get_update_same)
  have g2: "dict_get ?schedule1 tid = Inr []" by (rule dict_get_update_same)
  have base: "routes_schedules ?s1 =
      AList.update route (AList.update tid [] schedule) (routes_schedules s)" by simp
  show ?thesis
  proof (cases "\<exists>t stops. datetime_2000_01_01 h m = Inr t \<and> dict_get (routes_stops ?s1) route = Inr stops")
    case False
    then have "snd (generateTrip route tid h m s) = ?s1"
      using assms by (auto simp: generateTrip_def Let_def split: sum.splits)
    with base show ?thesis by metis
  next
    case True
    then obtain t stops where
      ok: "datetime_2000_01_01 h m = Inr t" "dict_get (routes_stops ?s1) route = Inr stops"
      by blast
    have run: "generateTrip route tid h m s = generateTrip_stops stops route tid t ?s1"
      using assms ok by (simp add: generateTrip_def Let_def)
    from generateTrip_stops_entry[OF g1 g2, of stops t] obtain trip where
      "routes_schedules (snd (generateTrip_stops stops route tid t ?s1)) =
         AList.update route (AList.update tid trip ?schedule1) (routes_schedules ?s1)"
      by blast
    then have "routes_schedules (snd (generateTrip route tid h m s)) =
         AList.update route (AList.update tid trip schedule) (routes_schedules s)"
      unfolding run by simp
    then show ?thesis by blast
  qed
qed

lemma generateRouteSchedule_trips_ids:
  assumes "dict_get (routes_schedules s) route = Inr schedule"
    and "map fst schedule = map (\<lambda>k. route @ fmt_0d 4 k) [1..<Suc n]"
  shows "\<exists>n' extra.
           n \<le> n' \<and> n' \<le> n + length ms \<and>
           dict_get (routes_schedules (snd (generateRouteSchedule_trips ms route h n s))) route =
             Inr (schedule @ extra) \<and>
           map fst extra = map (\<lambda>k. route @ fmt_0d 4 k) [Suc n..<Suc n'] \<and>
           (\<forall>k. fst (generateRouteSchedule_trips ms route h n s) = Inr k \<longrightarrow> k = n')"
  using assms
proof (induction ms arbitrary: s schedule n)
  case Nil
  then show ?case by (intro exI[of _ n] exI[of _ "[]"]) simp
next
  case (Cons m ms)
  let ?tid = "route @ fmt_0d 4 (n + 1)"
  let ?r = "generateTrip route ?tid h m s"
  from generateTrip_entry[OF Cons.prems(1), of ?tid h m] obtain trip where
    trip: "routes_schedules (snd ?r) =
             AList.update route (AList.update ?tid trip schedule) (routes_schedules s)"
    by blast
  have fresh: "?tid \<notin> fst ` set schedule"
  proof
    assume "?tid \<in> fst ` set schedule"
    then have "?tid \<in> set (map fst schedule)" by simp
    then obtain k where k: "k \<in> set [1..<Suc n]" "?tid = route @ fmt_0d 4 k"
      unfolding Cons.prems(2) by auto
    from k(1) have lt: "k < n + 1" by auto
    from k(2) have "fmt_0d 4 (n + 1) = fmt_0d 4 k" by simp
    then have "n + 1 = k" by (rule fmt_0d_inj)
    with lt show False by simp
  qed
  let ?schedule1 = "schedule @ [(?tid, trip)]"
  have upd: "AList.update ?tid trip schedule = ?schedule1" using fresh by (rule update_snoc_fresh)
  have g1: "dict_get (routes_schedules (snd ?r)) route = Inr ?schedule1"
    unfolding trip upd by (rule dict_get_update_same)
  have keys1: "map fst ?schedule1 = map (\<lambda>k. route @ fmt_0d 4 k) [1..<Suc (n + 1)]"
    using Cons.prems(2) by simp
  show ?case
  proof (cases "fst ?r")
    case (Inl e)
    then have res: "generateRouteSchedule_trips (m # ms) route h n s = (Inl e, snd ?r)"
      by (cases ?r) (simp split: sum.splits)
    show ?thesis
      by (intro exI[of _ "n + 1"] exI[of _ "[(?tid, trip)]"]) (use res g1 in simp)
  next
    case (Inr u)
    then have res: "generateRouteSchedule_trips (m # ms) route h n s =
                    generateRouteSchedule_trips ms route h (n + 1) (snd ?r)"
      by (cases ?r) (simp split: sum.splits)
    from Cons.IH[OF g1 keys1] obtain n' extra where
      ih: "n + 1 \<le> n'" "n' \<le> n + 1 + length ms"
          "dict_get (routes_schedules (snd (generateRouteSchedule_trips ms route h (n + 1) (snd ?r)))) route =
             Inr (?schedule1 @ extra)"
          "map fst extra = map (\<lambda>k. route @ fmt_0d 4 k) [Suc (n + 1)..<Suc n']"
          "\<forall>k. fst (generateRouteSchedule_trips ms route h (n + 1) (snd ?r)) = Inr k \<longrightarrow> k = n'"
      by blast
    have up: "[Suc n..<Suc n'] = Suc n # [Suc (n + 1)..<Suc n']"
      using ih(1) by (simp add: upt_conv_Cons)
    show ?thesis
      apply (intro exI[of _ n'] exI[of _ "(?tid, trip) # extra"])
      unfolding res using ih up by simp
  qed
qed

lemma calculateFrequencyMinutes_total:
  "\<exists>r. calculateFrequencyMinutes f 0 = Some r \<and> (\<forall>ms. r = Some ms \<longrightarrow> length ms \<le> 60)"
proof (cases "f > 60 \<or> f < 1")
  case True
  then show ?thesis by (simp add: calculateFrequencyMinutes_def)
next
  case False
  then have f1: "1 \<le> f" by simp
  from calculateFrequencyMinutes_loop_returns[OF f1, of 0 "[]"] obtain xs where
    xs: "calculateFrequencyMinutes_loop f 0 [] = Some xs" "sorted_wrt (<) xs"
        "set xs = {m. m < 60 \<and> (\<exists>k::nat. m = 0 + int k * f)}"
    by auto
  have sub: "set xs \<subseteq> {0..<60}"
  proof
    fix m assume "m \<in> set xs"
    then obtain k :: nat where "m < 60" "m = 0 + int k * f" using xs(3) by auto
    moreover have "0 \<le> int k * f" using f1 by simp
    ultimately show "m \<in> {0..<60}" by simp
  qed
  have "distinct xs" using xs(2) by (simp add: strict_sorted_iff)
  then have "length xs = card (set xs)" by (simp add: distinct_card)
  also have "\<dots> \<le> card {0..<60::int}" using sub by (intro card_mono) simp_all
  finally have "length xs \<le> 60" by simp
  with xs(1) False show ?thesis by (simp add: calculateFrequencyMinutes_def)
qed

lemma upt_split: "a \<le> n \<Longrightarrow> n \<le> n' \<Longrightarrow> [a..<n'] = [a..<n] @ [n..<n']"
proof -
  assume a: "a \<le> n" and "n \<le> n'"
  then obtain d where d: "n' = n + d" using le_Suc_ex by blast
  show ?thesis unfolding d using a by (rule upt_add_eq_append)
qed

lemma ids_upt_append:
  "n \<le> n' \<Longrightarrow> map f [1..<Suc n] @ map f [Suc n..<Suc n'] = map f [1..<Suc n']"
proof -
  assume "n \<le> n'"
  then have "[1..<Suc n'] = [1..<Suc n] @ [Suc n..<Suc n']"
    by (intro upt_split) simp_all
  then show ?thesis by (simp del: upt_Suc)
qed

lemma generateRouteSchedule_hours_ids:
  assumes "dict_get (routes_schedules s) route = Inr schedule"
    and "map fst schedule = map (\<lambda>k. route @ fmt_0d 4 k) [1..<Suc n]"
  shows "\<exists>res s' n' extra.
           generateRouteSchedule_hours fs route h c n s = Some (res, s') \<and>
           n \<le> n' \<and> n' \<le> n + 60 * length fs \<and>
           dict_get (routes_schedules s') route = Inr (schedule @ extra) \<and>
           map fst extra = map (\<lambda>k. route @ fmt_0d 4 k) [Suc n..<Suc n']"
  using assms
proof (induction fs arbitrary: s schedule n h c)
  case Nil
  then show ?case by (intro exI[of _ "Inr ()"] exI[of _ s] exI[of _ n] exI[of _ "[]"]) simp
next
  case (Cons f fs)
  let ?hour = "if h = 24 then 0 else h"
  show ?case
  proof (cases "py_int f")
    case (Inl e)
    then have "generateRouteSchedule_hours (f # fs) route h c n s = Some (Inl e, s)" by simp
    with Cons.prems(1) show ?thesis
      by (intro exI[of _ "Inl e"] exI[of _ s] exI[of _ n] exI[of _ "[]"]) simp
  next
    case (Inr freq)
    from calculateFrequencyMinutes_total[of freq] obtain r where
      r: "calculateFrequencyMinutes freq 0 = Some r" "\<forall>ms. r = Some ms \<longrightarrow> length ms \<le> 60"
      by blast
    show ?thesis
    proof (cases r)
      case None
      then have run: "generateRouteSchedule_hours (f # fs) route h c n s =
                      generateRouteSchedule_hours fs route (?hour + 1) (c + 1) n s"
        using Inr r(1) by (simp add: Let_def)
      from Cons.IH[OF Cons.prems, of "?hour + 1" "c + 1"] obtain res s' n' extra where
        ih: "generateRouteSchedule_hours fs route (?hour + 1) (c + 1) n s = Some (res, s')"
            "n \<le> n'" "n' \<le> n + 60 * length fs"
            "dict_get (routes_schedules s') route = Inr (schedule @ extra)"
            "map fst extra = map (\<lambda>k. route @ fmt_0d 4 k) [Suc n..<Suc n']"
        by blast
      show ?thesis
        by (intro exI[of _ res] exI[of _ s'] exI[of _ n'] exI[of _ extra])
           (use run ih in simp)
    next
      case (Some ms)
      then have len: "length ms \<le> 60" using r(2) by simp
      let ?R = "generateRouteSchedule_trips ms route ?hour n s"
      from generateRouteSchedule_trips_ids[OF Cons.prems, of ms ?hour] obtain n1 extra1 where
        t: "n \<le> n1" "n1 \<le> n + length ms"
           "dict_get (routes_schedules (snd ?R)) route = Inr (schedule @ extra1)"
           "map fst extra1 = map (\<lambda>k. route @ fmt_0d 4 k) [Suc n..<Suc n1]"
           "\<forall>k. fst ?R = Inr k \<longrightarrow> k = n1"
        by blast
      have n1b: "n1 \<le> n + 60 * length (f # fs)" using t(2) len by simp
      show ?thesis
      proof (cases "fst ?R")
        case (Inl e)
        then have "generateRouteSchedule_hours (f # fs) route h c n s = Some (Inl e, snd ?R)"
          using Inr r(1) Some by (cases ?R) (simp add: Let_def)
        then show ?thesis
          by (intro exI[of _ "Inl e"] exI[of _ "snd ?R"] exI[of _ n1] exI[of _ extra1])
             (use t n1b in simp)
      next
        case (Inr k)
        with t(5) have k: "k = n1" by simp
        show ?thesis
        proof (cases "c = 23")
          case True
          then have "generateRouteSchedule_hours (f # fs) route h c n s = Some (Inr (), snd ?R)"
            using \<open>py_int f = Inr freq\<close> r(1) Some Inr by (cases ?R) (simp add: Let_def)
          then show ?thesis
            by (intro exI[of _ "Inr ()"] exI[of _ "snd ?R"] exI[of _ n1] exI[of _ extra1])
               (use t n1b in simp)
        next
          case False
          then have run: "generateRouteSchedule_hours (f # fs) route h c n s =
                      generateRouteSchedule_hours fs route (?hour + 1) (c + 1) n1 (snd ?R)"
            using \<open>py_int f = Inr freq\<close> r(1) Some Inr k by (cases ?R) (simp add: Let_def)
          have keys1: "map fst (schedule @ extra1) = map (\<lambda>k. route @ fmt_0d 4 k) [1..<Suc n1]"
            using Cons.prems(2) t(4) ids_upt_append[OF t(1)] by (simp del: upt_Suc)
          from Cons.IH[OF t(3) keys1, of "?hour + 1" "c + 1"] obtain res s' n' extra where
            ih: "generateRouteSchedule_hours fs route (?hour + 1) (c + 1) n1 (snd ?R) = Some (res, s')"
                "n1 \<le> n'" "n' \<le> n1 + 60 * length fs"
                "dict_get (routes_schedules s') route = Inr ((schedule @ extra1) @ extra)"
                "map fst extra = map (\<lambda>k. route @ fmt_0d 4 k) [Suc n1..<Suc n']"
            by blast
          have join: "map (\<lambda>k. route @ fmt_0d 4 k) [Suc n..<Suc n1] @
                      map (\<lambda>k. route @ fmt_0d 4 k) [Suc n1..<Suc n'] =
                      map (\<lambda>k. route @ fmt_0d 4 k) [Suc n..<Suc n']"
          proof -
            have "[Suc n..<Suc n'] = [Suc n..<Suc n1] @ [Suc n1..<Suc n']"
              using t(1) ih(2) by (intro upt_split) simp_all
            then show ?thesis by (simp del: upt_Suc)
          qed
          show ?thesis
            apply (intro exI[of _ res] exI[of _ s'] exI[of _ n'] exI[of _ "extra1 @ extra"])
            using run ih t(1,2,4) len join by (simp del: upt_Suc)
        qed
      qed
    qed
  qed
qed



lemma fmt_0d_4_numerals:
  "fmt_0d 4 (Suc 0) = ''0001''" "fmt_0d 4 1 = ''0001''" "fmt_0d 4 2 = ''0002''"
  "fmt_0d 4 (Suc (Suc 0)) = ''0002''" "fmt_0d 4 3 = ''0003''"
  by code_simp+

lemma calculateFrequencyMinutes_30: "calculateFrequencyMinutes 30 0 = Some (Some [0, 30])"
  by (simp add: calculateFrequencyMinutes_def calculateFrequencyMinutes_loop.simps)

lemma dict_get_Cons:
  "dict_get ((k, v) # al) k' = (if k = k' then Inr v else dict_get al k')"
  "dict_get [] k' = Inl KeyError"
  by (simp_all add: dict_get_def)

lemma first_hour_trips:
  assumes "dict_get (routes_stops s) ''27'' = Inr [(''A'', ''0''), (''B'', ''120''), (''C'', ''90'')]"
    and "dict_get (routes_schedules s) ''27'' = Inr []"
  shows "fst (generateRouteSchedule_trips [0, 30] ''27'' 3 0 s) = Inr 2 \<and>
         dict_get (routes_schedules (snd (generateRouteSchedule_trips [0, 30] ''27'' 3 0 s))) ''27'' =
           Inr [(''270001'', [(''A'', ''03:00:00''), (''B'', ''03:02:00''), (''C'', ''03:03:30'')]),
                (''270002'', [(''A'', ''03:30:00''), (''B'', ''03:32:00''), (''C'', ''03:33:30'')])]"
proof -
  have t: "str_time 10800 = ''03:00:00''" "str_time 10920 = ''03:02:00''"
    "str_time 11010 = ''03:03:30''" "str_time 12600 = ''03:30:00''"
    "str_time 12720 = ''03:32:00''" "str_time 12810 = ''03:33:30''"
    by (simp_all add: str_time_def fmt_0d_2 digit_char_numerals)
  show ?thesis
    using assms
    by (simp add: generateTrip_def dict_get_update_same dict_get_Cons Let_def
          datetime_2000_01_01_def py_int_numerals
          timedelta_seconds_def datetime_add_def time_of_def fmt_0d_4_numerals t)
qed

lemma calculateFrequencyMinutes_0: "calculateFrequencyMinutes 0 0 = Some None"
  by (simp add: calculateFrequencyMinutes_def)

text \<open>
  Claim C7, as amended. For route 27 with the stops \<open>[("A",0),("B",120),("C",90)]\<close>, an empty
  schedule, and a frequency row whose value for hour 3 is 30 (any values for the other 23
  hours, under the header \<^verbatim>\<open>MF00\<close> to \<^verbatim>\<open>MF23\<close>), the first trip written by
  \<^verbatim>\<open>generateRouteSchedule\<close> has the id \<^verbatim>\<open>270001\<close>, the route id followed by the counter
  \<^verbatim>\<open>0001\<close>, and the stop times A = 03:00:00, B = 03:02:00, C = 03:03:30. The id is not
  \<^verbatim>\<open>2700010003\<close>: nothing is appended after the counter.
\<close>

theorem generateRouteSchedule_first_trip:
  assumes "dict_get (routes_stops s) ''27'' = Inr [(''A'', ''0''), (''B'', ''120''), (''C'', ''90'')]"
    and "dict_get (routes_schedules s) ''27'' = Inr []"
    and "frequency s =
           [[''route'', ''MF00'', ''MF01'', ''MF02'', ''MF03'', ''MF04'', ''MF05'', ''MF06'',
             ''MF07'', ''MF08'', ''MF09'', ''MF10'', ''MF11'', ''MF12'', ''MF13'', ''MF14'',
             ''MF15'', ''MF16'', ''MF17'', ''MF18'', ''MF19'', ''MF20'', ''MF21'', ''MF22'',
             ''MF23''],
            ''27'' # f0 # f1 # f2 # ''30'' # rest]"
    and "length rest = 20"
  shows "\<exists>res s' later.
           generateRouteSchedule ''27'' ''MF'' s = Some (res, s') \<and>
           dict_get (routes_schedules s') ''27'' =
             Inr ((''270001'', [(''A'', ''03:00:00''), (''B'', ''03:02:00''), (''C'', ''03:03:30'')])
                  # later)"
proof -
  let ?trip1 = "(''270001'', [(''A'', ''03:00:00''), (''B'', ''03:02:00''), (''C'', ''03:03:30'')])"
  let ?trip2 = "(''270002'', [(''A'', ''03:30:00''), (''B'', ''03:32:00''), (''C'', ''03:33:30'')])"
  let ?R = "generateRouteSchedule_trips [0, 30] ''27'' 3 0 s"
  let ?fs = "rest @ [f0, f1, f2]"
  from first_hour_trips[OF assms(1,2)] have
    r: "fst ?R = Inr 2" "dict_get (routes_schedules (snd ?R)) ''27'' = Inr [?trip1, ?trip2]"
    by simp_all
  obtain s1 where R: "?R = (Inr 2, s1)" using r(1) by (cases ?R) simp
  have g: "dict_get (routes_schedules s1) ''27'' = Inr [?trip1, ?trip2]" using r(2) R by simp
  have run: "generateRouteSchedule ''27'' ''MF'' s =
             generateRouteSchedule_hours ?fs ''27'' (3 + 1) (0 + 1) 2 s1"
    using assms(3,4) R
    by (simp add: generateRouteSchedule_def py_index_def py_slice_def START_DAY_HOUR_def
          py_int_numerals calculateFrequencyMinutes_30)
  have "[1..<Suc 2] = [1, 2]" by code_simp
  then have keys: "map fst [?trip1, ?trip2] = map (\<lambda>k. ''27'' @ fmt_0d 4 k) [1..<Suc 2]"
    by (simp only: list.map fst_conv fmt_0d_4_numerals append_Cons append_Nil)
  from generateRouteSchedule_hours_ids[OF g keys, of ?fs "3 + 1" "0 + 1"]
  obtain res s' extra where
    "generateRouteSchedule_hours ?fs ''27'' (3 + 1) (0 + 1) 2 s1 = Some (res, s')"
    "dict_get (routes_schedules s') ''27'' = Inr ([?trip1, ?trip2] @ extra)"
    by blast
  with run show ?thesis by (intro exI[of _ res] exI[of _ s'] exI[of _ "?trip2 # extra"]) simp
qed

theorem generateRouteSchedule_first_trip_witness:
  "\<exists>res s' later.
     generateRouteSchedule ''27'' ''MF''
       \<lparr>routes = [], nodes = [],
         frequency =
           [[''route'', ''MF00'', ''MF01'', ''MF02'', ''MF03'', ''MF04'', ''MF05'', ''MF06'',
             ''MF07'', ''MF08'', ''MF09'', ''MF10'', ''MF11'', ''MF12'', ''MF13'', ''MF14'',
             ''MF15'', ''MF16'', ''MF17'', ''MF18'', ''MF19'', ''MF20'', ''MF21'', ''MF22'',
             ''MF23''],
            [''27'', ''60'', ''0'', ''0'', ''30'', ''20'', ''15'', ''10'', ''10'', ''10'', ''15'',
             ''15'', ''15'', ''15'', ''15'', ''15'', ''10'', ''10'', ''10'', ''15'', ''20'',
             ''30'', ''30'', ''60'', ''60'']],
         priority = [],
         routes_stops = [(''27'', [(''A'', ''0''), (''B'', ''120''), (''C'', ''90'')])],
         routes_schedules = [(''27'', [])], routes_order = [], stdout = []\<rparr> = Some (res, s') \<and>
     dict_get (routes_schedules s') ''27'' =
       Inr ((''270001'', [(''A'', ''03:00:00''), (''B'', ''03:02:00''), (''C'', ''03:03:30'')])
            # later)"
proof (rule generateRouteSchedule_first_trip)
  show "length [''20'', ''15'', ''10'', ''10'', ''10'', ''15'', ''15'', ''15'', ''15'', ''15'',
          ''15'', ''10'', ''10'', ''10'', ''15'', ''20'', ''30'', ''30'', ''60'', ''60''] = 20"
    by code_simp
qed (simp_all add: dict_get_Cons)

text \<open>
  The scenario with no service outside hour 3: the schedule holds the trips \<^verbatim>\<open>270001\<close> and
  \<^verbatim>\<open>270002\<close>, and the first trip id is not \<^verbatim>\<open>2700010003\<close>.
\<close>

theorem generateRouteSchedule_first_trip_counterexample:
  "generateRouteSchedule ''27'' ''MF''
     \<lparr>routes = [], nodes = [],
       frequency =
         [[''route'', ''MF00'', ''MF01'', ''MF02'', ''MF03'', ''MF04'', ''MF05'', ''MF06'',
           ''MF07'', ''MF08'', ''MF09'', ''MF10'', ''MF11'', ''MF12'', ''MF13'', ''MF14'',
           ''MF15'', ''MF16'', ''MF17'', ''MF18'', ''MF19'', ''MF20'', ''MF21'', ''MF22'',
           ''MF23''],
          [''27'', ''0'', ''0'', ''0'', ''30'', ''0'', ''0'', ''0'', ''0'', ''0'', ''0'', ''0'',
           ''0'', ''0'', ''0'', ''0'', ''0'', ''0'', ''0'', ''0'', ''0'', ''0'', ''0'', ''0'',
           ''0'']],
       priority = [],
       routes_stops = [(''27'', [(''A'', ''0''), (''B'', ''120''), (''C'', ''90'')])],
       routes_schedules = [(''27'', [])], routes_order = [], stdout = []\<rparr> =
   Some (Inr (),
     \<lparr>routes = [], nodes = [],
       frequency =
         [[''route'', ''MF00'', ''MF01'', ''MF02'', ''MF03'', ''MF04'', ''MF05'', ''MF06'',
           ''MF07'', ''MF08'', ''MF09'', ''MF10'', ''MF11'', ''MF12'', ''MF13'', ''MF14'',
           ''MF15'', ''MF16'', ''MF17'', ''MF18'', ''MF19'', ''MF20'', ''MF21'', ''MF22'',
           ''MF23''],
          [''27'', ''0'', ''0'', ''0'', ''30'', ''0'', ''0'', ''0'', ''0'', ''0'', ''0'', ''0'',
           ''0'', ''0'', ''0'', ''0'', ''0'', ''0'', ''0'', ''0'', ''0'', ''0'', ''0'', ''0'',
           ''0'']],
       priority = [],
       routes_stops = [(''27'', [(''A'', ''0''), (''B'', ''120''), (''C'', ''90'')])],
       routes_schedules =
         [(''27'',
           [(''270001'', [(''A'', ''03:00:00''), (''B'', ''03:02:00''), (''C'', ''03:03:30'')]),
            (''270002'', [(''A'', ''03:30:00''), (''B'', ''03:32:00''), (''C'', ''03:33:30'')])])],
       routes_order = [], stdout = []\<rparr>) \<and>
   ''270001'' \<noteq> ''2700010003''"
proof -
  have t: "str_time 10800 = ''03:00:00''" "str_time 10920 = ''03:02:00''"
    "str_time 11010 = ''03:03:30''" "str_time 12600 = ''03:30:00''"
    "str_time 12720 = ''03:32:00''" "str_time 12810 = ''03:33:30''"
    by (simp_all add: str_time_def fmt_0d_2 digit_char_numerals)
  show ?thesis
    by (simp add: generateRouteSchedule_def py_index_def py_slice_def START_DAY_HOUR_def
          py_int_numerals calculateFrequencyMinutes_30 calculateFrequencyMinutes_0
          generateTrip_def dict_get_Cons Let_def datetime_2000_01_01_def
          timedelta_seconds_def datetime_add_def time_of_def fmt_0d_4_numerals t)
qed

section \<open>Properties of the wait-time optimizer\<close>

lemma minimizeRouteWaitTime_trips_frame:
  "routes_schedules (snd (minimizeRouteWaitTime_trips trips route s)) = routes_schedules s"
  by (induction trips arbitrary: s) (auto simp: print_line_def split: sum.splits)

lemma minimizeRouteWaitTime_hours_frame:
  "routes_schedules (snd (minimizeRouteWaitTime_hours i h route s)) = routes_schedules s"
proof (induction i arbitrary: h s)
  case 0
  show ?case by simp
next
  case (Suc i)
  show ?case
  proof (cases "dict_get (routes_schedules s) route")
    case (Inl e)
    then show ?thesis by (simp add: Let_def)
  next
    case (Inr schedule)
    obtain r s' where t: "minimizeRouteWaitTime_trips (map fst schedule) route s = (r, s')"
      by (cases "minimizeRouteWaitTime_trips (map fst schedule) route s")
    have f: "routes_schedules s' = routes_schedules s"
      using minimizeRouteWaitTime_trips_frame[of "map fst schedule" route s] t by simp
    show ?thesis
      using Inr t f Suc.IH by (cases r) (simp_all add: Let_def)
  qed
qed

lemma minimizeRouteWaitTime_frame:
  "routes_schedules (snd (minimizeRouteWaitTime route s)) = routes_schedules s"
  by (simp add: minimizeRouteWaitTime_def minimizeRouteWaitTime_hours_frame)

lemma optimizeNodeConnections_routes_frame:
  "routes_schedules (snd (optimizeNodeConnections_routes rs s)) = routes_schedules s"
proof (induction rs arbitrary: s)
  case Nil
  show ?case by simp
next
  case (Cons route rs)
  obtain r s1 where e: "evaluateNodeConnections route s = (r, s1)"
    by (cases "evaluateNodeConnections route s")
  have s1: "s1 = s" using e by (auto simp: evaluateNodeConnections_def split: list.splits)
  show ?case
  proof (cases r)
    case (Inl err)
    with e s1 show ?thesis by simp
  next
    case (Inr t)
    let ?s2 = "print_line (''Route '' @ route @ '' wait time: '' @ str_int t @ ''s'') s1"
    obtain r' s3 where m: "minimizeRouteWaitTime route ?s2 = (r', s3)"
      by (cases "minimizeRouteWaitTime route ?s2")
    have f: "routes_schedules s3 = routes_schedules s"
      using minimizeRouteWaitTime_frame[of route ?s2] m s1 by (simp add: print_line_def)
    show ?thesis using e Inr m f Cons.IH by (cases r') simp_all
  qed
qed

lemma optimizeNodeConnections_categories_frame:
  "routes_schedules (snd (optimizeNodeConnections_categories cs pr s)) = routes_schedules s"
proof (induction cs arbitrary: s)
  case Nil
  show ?case by simp
next
  case (Cons c cs)
  show ?case
  proof (cases "dict_get pr c")
    case (Inl e)
    then show ?thesis by simp
  next
    case (Inr rs)
    obtain r s1 where o: "optimizeNodeConnections_routes rs s = (r, s1)"
      by (cases "optimizeNodeConnections_routes rs s")
    have f: "routes_schedules s1 = routes_schedules s"
      using optimizeNodeConnections_routes_frame[of rs s] o by simp
    show ?thesis using Inr o f Cons.IH by (cases r) simp_all
  qed
qed

text \<open>
  Claim C10. From every state, \<^verbatim>\<open>optimizeNodeConnections\<close> returns (with \<^verbatim>\<open>None\<close> or with
  an exception) and leaves \<open>routes_schedules\<close> as it found it, also when it raises; so
  do \<^verbatim>\<open>minimizeRouteWaitTime\<close> and \<^verbatim>\<open>shiftHourlyTripTimes\<close>. No trip is added or removed
  and no stop time is changed: the methods only read the schedules and print.
\<close>

theorem optimizeNodeConnections_frame:
  "(\<exists>res s'. optimizeNodeConnections s = Some (res, s') \<and>
       routes_schedules s' = routes_schedules s) \<and>
   routes_schedules (snd (minimizeRouteWaitTime route s)) = routes_schedules s \<and>
   routes_schedules (snd (shiftHourlyTripTimes trips route hour seconds s)) = routes_schedules s"
proof (intro conjI)
  from getOrderedRoutes_loop_terminates[of 1 "priority s" "[]"] obtain r where
    r: "getOrderedRoutes (priority s) = Some r" by (auto simp: getOrderedRoutes_def)
  show "\<exists>res s'. optimizeNodeConnections s = Some (res, s') \<and>
       routes_schedules s' = routes_schedules s"
  proof (cases r)
    case (Inl e)
    with r show ?thesis by (simp add: optimizeNodeConnections_def)
  next
    case (Inr pr)
    obtain res s' where c: "optimizeNodeConnections_categories (map fst pr) pr s = (res, s')"
      by (cases "optimizeNodeConnections_categories (map fst pr) pr s")
    have "routes_schedules s' = routes_schedules s"
      using optimizeNodeConnections_categories_frame[of "map fst pr" pr s] c by simp
    with r Inr c show ?thesis by (simp add: optimizeNodeConnections_def)
  qed
next
  show "routes_schedules (snd (minimizeRouteWaitTime route s)) = routes_schedules s"
    by (rule minimizeRouteWaitTime_frame)
next
  show "routes_schedules (snd (shiftHourlyTripTimes trips route hour seconds s)) = routes_schedules s"
    by (simp add: shiftHourlyTripTimes_def)
qed

end
